theory Spec2Isabelle
  imports Complex_Main "HOL-Library.Multiset" "HOL-Library.Product_Lexorder" "HOL-Library.Sublist"
begin

section \<open>Smart History Manager: the detection core of service\_worker.js\<close>

text \<open>
  The embedding follows \<^verbatim>\<open>src/service_worker.js\<close>. Conventions:
  \<^item> JavaScript numbers are modelled by exact rationals (\<^typ>\<open>rat\<close>) and the integral
    counters by \<^typ>\<open>int\<close>: no rounding, no NaN. The one quotient whose divisor can be
    zero, \<^verbatim>\<open>session.length / durationMin\<close>, is guarded in the source by
    \<^verbatim>\<open>durationMin > 0\<close>, and the guard is part of the model.
  \<^item> Objects read from storage (\<^verbatim>\<open>domainPrefs\<close>, \<^verbatim>\<open>domainIgnoreCounts\<close>) are maps from
    their own property names to values. A property read with the key \<^verbatim>\<open>null\<close> reads the
    property named \<^verbatim>\<open>"null"\<close>, as JavaScript does. The scorer only compares what it reads
    with \<^verbatim>\<open>"work"\<close>, \<^verbatim>\<open>"personal"\<close> and 3, and a member inherited from \<^verbatim>\<open>Object.prototype\<close>
    is none of the two texts and not a number, so there such a read is the read of a missing
    property. The handler of IGNORE\_SUGGESTION adds 1 to what it reads, and there the
    inherited members are part of the model.
  \<^item> What the browser provides (\<^verbatim>\<open>new URL\<close>, the local clock of \<^verbatim>\<open>Date\<close>) is a parameter
    of the model, the record \<open>platform\<close>.
  \<^item> A raised \<^verbatim>\<open>TypeError\<close> is the value \<open>Inl TypeError\<close>.
\<close>

subsection \<open>The platform\<close>

text \<open>The three components of a parsed URL that the source reads.\<close>

record parsed_url =
  hostname :: string
  pathname :: string
  search :: string

text \<open>
  \<open>URL p s\<close> is \<^verbatim>\<open>new URL(s)\<close>: \<open>None\<close> when the constructor throws.
  \<open>getHours p t\<close> and \<open>getDay p t\<close> are \<^verbatim>\<open>new Date(t).getHours()\<close> and
  \<^verbatim>\<open>new Date(t).getDay()\<close> in the local time zone: \<open>None\<close> is the NaN of an invalid date.
\<close>

record platform =
  URL :: "string \<Rightarrow> parsed_url option"
  getHours :: "rat \<Rightarrow> int option"
  getDay :: "rat \<Rightarrow> int option"

datatype error = TypeError

subsection \<open>Strings\<close>

text \<open>\<^verbatim>\<open>s.includes(p)\<close>: \<open>p\<close> occurs in \<open>s\<close> as a contiguous substring.\<close>

fun starts_with :: "string \<Rightarrow> string \<Rightarrow> bool" where
  "starts_with s [] = True"
| "starts_with [] (c # p) = False"
| "starts_with (d # s) (c # p) = (d = c \<and> starts_with s p)"

fun includes_str :: "string \<Rightarrow> string \<Rightarrow> bool" where
  "includes_str [] p = starts_with [] p"
| "includes_str (d # s) p = (starts_with (d # s) p \<or> includes_str s p)"

text \<open>
  \<^verbatim>\<open>toLowerCase\<close> on the serialised path and query of a URL, which are ASCII: the letters
  A to Z (codes 65 to 90) move up by 32, every other character stays.
\<close>

definition lower_char :: "char \<Rightarrow> char" where
  "lower_char c =
     (let n = (of_char c :: nat) in if 65 \<le> n \<and> n \<le> 90 then char_of (n + 32) else c)"

definition toLowerCase :: "string \<Rightarrow> string" where
  "toLowerCase s = map lower_char s"

text \<open>\<^verbatim>\<open>h.split(".")\<close>: the pieces between the dots; never the empty list.\<close>

fun split_dot :: "string \<Rightarrow> string list" where
  "split_dot [] = [[]]"
| "split_dot (c # s) =
     (if c = CHR ''.'' then [] # split_dot s
      else (case split_dot s of
              [] \<Rightarrow> [[c]]
            | w # ws \<Rightarrow> (c # w) # ws))"

text \<open>\<^verbatim>\<open>parts.join(".")\<close>.\<close>

fun join_dot :: "string list \<Rightarrow> string" where
  "join_dot [] = []"
| "join_dot [w] = w"
| "join_dot (w # v # ws) = w @ CHR ''.'' # join_dot (v # ws)"

text \<open>\<^verbatim>\<open>parts.slice(-2)\<close>: the last two elements, or all of them when there are fewer.\<close>

definition slice_last2 :: "'a list \<Rightarrow> 'a list" where
  "slice_last2 parts = drop (length parts - 2) parts"

subsection \<open>Layer 1: the URL intent rules\<close>

record intent_rule =
  match :: string
  rule_score :: int
  category :: string
  label :: string

definition mk_rule :: "string \<Rightarrow> int \<Rightarrow> string \<Rightarrow> string \<Rightarrow> intent_rule" where
  "mk_rule m s c l = \<lparr>match = m, rule_score = s, category = c, label = l\<rparr>"

definition URL_INTENT_RULES :: "intent_rule list" where
  "URL_INTENT_RULES =
    [ mk_rule ''/watch'' 2 ''entertainment'' ''Video'',
      mk_rule ''/shorts'' 2 ''entertainment'' ''Video'',
      mk_rule ''/clip'' 1 ''entertainment'' ''Video'',
      mk_rule ''/video'' 1 ''entertainment'' ''Video'',
      mk_rule ''/stream'' 1 ''entertainment'' ''Video'',
      mk_rule ''/live'' 1 ''entertainment'' ''Video'',
      mk_rule ''/reels'' 2 ''social'' ''Social'',
      mk_rule ''/reel'' 2 ''social'' ''Social'',
      mk_rule ''/story'' 1 ''social'' ''Social'',
      mk_rule ''/post'' 1 ''social'' ''Social'',
      mk_rule ''/feed'' 1 ''social'' ''Social'',
      mk_rule ''/profile'' 1 ''social'' ''Social'',
      mk_rule ''/explore'' 1 ''social'' ''Social'',
      mk_rule ''/trending'' 1 ''social'' ''Social'',
      mk_rule ''/cart'' 2 ''shopping'' ''Shopping'',
      mk_rule ''/checkout'' 3 ''shopping'' ''Shopping'',
      mk_rule ''/wishlist'' 1 ''shopping'' ''Shopping'',
      mk_rule ''/product'' 1 ''shopping'' ''Shopping'',
      mk_rule ''/item/'' 1 ''shopping'' ''Shopping'',
      mk_rule ''/dp/'' 1 ''shopping'' ''Shopping'',
      mk_rule ''/buy'' 2 ''shopping'' ''Shopping'',
      mk_rule ''/order'' 1 ''shopping'' ''Shopping'',
      mk_rule ''/adsmanager'' (- 5) ''work'' ''Ads Manager'',
      mk_rule ''/business'' (- 4) ''work'' ''Business'',
      mk_rule ''/analytics'' (- 4) ''work'' ''Analytics'',
      mk_rule ''/dashboard'' (- 4) ''work'' ''Dashboard'',
      mk_rule ''/admin'' (- 3) ''work'' ''Admin'',
      mk_rule ''/studio'' (- 3) ''work'' ''Studio'',
      mk_rule ''/manage'' (- 3) ''work'' ''Manage'',
      mk_rule ''/creator'' (- 2) ''work'' ''Creator Tools'',
      mk_rule ''/report'' (- 2) ''work'' ''Reports'',
      mk_rule ''/docs'' (- 2) ''work'' ''Docs'',
      mk_rule ''/api'' (- 2) ''work'' ''API'',
      mk_rule ''/settings'' (- 1) ''work'' ''Settings'',
      mk_rule ''/campaigns'' (- 3) ''work'' ''Campaigns'',
      mk_rule ''/insights'' (- 2) ''work'' ''Insights'' ]"

text \<open>
  \<^verbatim>\<open>CATEGORY_META\<close>. An icon is one glyph, kept as its Unicode code point
  (film clapper, mobile phone, shopping bags, briefcase).
\<close>

record category_meta =
  meta_label :: string
  meta_icon :: nat

definition CATEGORY_META :: "string \<rightharpoonup> category_meta" where
  "CATEGORY_META =
    [ ''entertainment'' \<mapsto> \<lparr>meta_label = ''Video & Entertainment'', meta_icon = 0x1F3AC\<rparr>,
      ''social'' \<mapsto> \<lparr>meta_label = ''Social Media'', meta_icon = 0x1F4F1\<rparr>,
      ''shopping'' \<mapsto> \<lparr>meta_label = ''Online Shopping'', meta_icon = 0x1F6CD\<rparr>,
      ''work'' \<mapsto> \<lparr>meta_label = ''Work Activity'', meta_icon = 0x1F4BC\<rparr> ]"

definition CONFIDENCE_THRESHOLD :: rat where
  "CONFIDENCE_THRESHOLD = 4"

definition AUTO_WORK_IGNORE_COUNT :: int where
  "AUTO_WORK_IGNORE_COUNT = 3"

subsection \<open>Helpers\<close>

definition getDomain :: "platform \<Rightarrow> string \<Rightarrow> string option" where
  "getDomain p url = (case URL p url of None \<Rightarrow> None | Some u \<Rightarrow> Some (hostname u))"

text \<open>\<^verbatim>\<open>if (!h) return null\<close>: a null and an empty host name both give null.\<close>

definition getRootDomain :: "platform \<Rightarrow> string \<Rightarrow> string option" where
  "getRootDomain p url =
     (case getDomain p url of
        None \<Rightarrow> None
      | Some h \<Rightarrow>
          if h = [] then None
          else (let parts = split_dot h
                in if length parts > 2 then Some (join_dot (slice_last2 parts)) else Some h))"

definition getPath :: "platform \<Rightarrow> string \<Rightarrow> string" where
  "getPath p url =
     (case URL p url of None \<Rightarrow> [] | Some u \<Rightarrow> toLowerCase (pathname u @ search u))"

text \<open>The loop of \<^verbatim>\<open>classifyUrl\<close> over a rule list: the first rule that matches.\<close>

fun first_match :: "string \<Rightarrow> intent_rule list \<Rightarrow> intent_rule option" where
  "first_match path [] = None"
| "first_match path (rule # rules) =
     (if includes_str path (match rule) then Some rule else first_match path rules)"

definition classifyUrl :: "platform \<Rightarrow> string \<Rightarrow> intent_rule option" where
  "classifyUrl p url = first_match (getPath p url) URL_INTENT_RULES"

definition getConfidence :: "rat \<Rightarrow> string" where
  "getConfidence score =
     (if score \<ge> 9 then ''high'' else if score \<ge> 6 then ''medium'' else ''low'')"

subsection \<open>Layers 2 to 5: the session scorer\<close>

text \<open>
  A history item as \<^verbatim>\<open>scoreSession\<close> reads it: the fields \<^verbatim>\<open>url\<close> and
  \<^verbatim>\<open>lastVisitTime\<close> (epoch milliseconds). \<^verbatim>\<open>title\<close> and \<^verbatim>\<open>visitCount\<close> are never read.
  Items that lack one of the two fields are dropped by \<^verbatim>\<open>detectMixedSessions\<close> before any
  session is scored.
\<close>

record history_item =
  url :: string
  lastVisitTime :: rat

type_synonym domain_prefs = "string \<rightharpoonup> string"
type_synonym ignore_counts = "string \<rightharpoonup> int"

text \<open>The property name that a possibly null key denotes in \<^verbatim>\<open>obj[key]\<close>.\<close>

definition prop_key :: "string option \<Rightarrow> string" where
  "prop_key k = (case k of None \<Rightarrow> ''null'' | Some s \<Rightarrow> s)"

text \<open>
  \<^verbatim>\<open>domainPrefs[domain] || domainPrefs[rootDomain]\<close>: the first value unless it is missing
  or the empty string, else the second.
\<close>

definition lookup_pref :: "domain_prefs \<Rightarrow> string option \<Rightarrow> string option \<Rightarrow> string option" where
  "lookup_pref domainPrefs domain rootDomain =
     (case domainPrefs (prop_key domain) of
        None \<Rightarrow> domainPrefs (prop_key rootDomain)
      | Some v \<Rightarrow> if v = [] then domainPrefs (prop_key rootDomain) else Some v)"

text \<open>\<^verbatim>\<open>ignoreCounts[rootDomain] || 0\<close>.\<close>

definition lookup_ignore :: "ignore_counts \<Rightarrow> string option \<Rightarrow> int" where
  "lookup_ignore ignoreCounts rootDomain =
     (case ignoreCounts (prop_key rootDomain) of None \<Rightarrow> 0 | Some n \<Rightarrow> n)"

record category_hit =
  hit_category :: string
  hit_label :: string
  icon :: nat
  hit_count :: int
  urls :: "string list"

text \<open>
  The variables of the loop over the session. \<open>categoryHits\<close> is the \<^verbatim>\<open>Map\<close> in
  insertion order, \<open>domainSet\<close> the \<^verbatim>\<open>Set\<close> named \<^verbatim>\<open>domains\<close>, in insertion order.
\<close>

record tally =
  urlIntentScore :: int
  workSignalScore :: int
  categoryHits :: "category_hit list"
  domainSet :: "string list"

definition tally0 :: tally where
  "tally0 = \<lparr>urlIntentScore = 0, workSignalScore = 0, categoryHits = [], domainSet = []\<rparr>"

text \<open>\<^verbatim>\<open>if (domain) domains.add(domain)\<close>.\<close>

definition add_domain :: "string option \<Rightarrow> string list \<Rightarrow> string list" where
  "add_domain domain ds =
     (case domain of
        None \<Rightarrow> ds
      | Some d \<Rightarrow> if d = [] then ds else if d \<in> set ds then ds else ds @ [d])"

text \<open>
  The category bookkeeping of a rule with a score that is not negative: create the entry
  when the category is new, then count the hit and keep the URL.
\<close>

definition record_hit :: "intent_rule \<Rightarrow> string \<Rightarrow> category_hit list \<Rightarrow> category_hit list" where
  "record_hit rule u hits =
     (let meta = (case CATEGORY_META (category rule) of
                    Some m \<Rightarrow> m
                  | None \<Rightarrow> \<lparr>meta_label = category rule, meta_icon = 0x1F517\<rparr>);
          hits1 = (if category rule \<in> set (map hit_category hits) then hits
                   else hits @ [\<lparr>hit_category = category rule, hit_label = meta_label meta,
                                  icon = meta_icon meta, hit_count = 0, urls = []\<rparr>])
      in map (\<lambda>e. if hit_category e = category rule
                   then e\<lparr>hit_count := hit_count e + 1, urls := urls e @ [u]\<rparr> else e) hits1)"

text \<open>The last part of the loop body, from \<^verbatim>\<open>const rule = classifyUrl(item.url)\<close> on.\<close>

definition classify_step :: "platform \<Rightarrow> history_item \<Rightarrow> tally \<Rightarrow> tally" where
  "classify_step p item acc =
     (case classifyUrl p (url item) of
        None \<Rightarrow> acc
      | Some rule \<Rightarrow>
          if rule_score rule < 0
          then acc\<lparr>workSignalScore := workSignalScore acc + \<bar>rule_score rule\<bar>\<rparr>
          else acc\<lparr>urlIntentScore := urlIntentScore acc + rule_score rule,
                   categoryHits := record_hit rule (url item) (categoryHits acc)\<rparr>)"

text \<open>One pass of the loop body of \<^verbatim>\<open>scoreSession\<close>.\<close>

definition score_item :: "platform \<Rightarrow> domain_prefs \<Rightarrow> ignore_counts \<Rightarrow> tally \<Rightarrow> history_item \<Rightarrow> tally" where
  "score_item p domainPrefs ignoreCounts acc item =
     (let domain = getDomain p (url item);
          rootDomain = getRootDomain p (url item);
          acc1 = acc\<lparr>domainSet := add_domain domain (domainSet acc)\<rparr>;
          pref = lookup_pref domainPrefs domain rootDomain
      in if pref = Some ''work''
         then acc1\<lparr>workSignalScore := workSignalScore acc1 + 3\<rparr>
         else
           (let acc2 = (if pref = Some ''personal''
                        then acc1\<lparr>urlIntentScore := urlIntentScore acc1 + 1\<rparr> else acc1);
                ignoreCount = lookup_ignore ignoreCounts rootDomain
            in if ignoreCount \<ge> AUTO_WORK_IGNORE_COUNT
               then acc2\<lparr>workSignalScore := workSignalScore acc2 + 2\<rparr>
               else classify_step p item acc2))"

text \<open>
  \<^verbatim>\<open>xs[i].field\<close>: outside the array the element is \<^verbatim>\<open>undefined\<close> and the property read
  raises.
\<close>

definition item_at :: "'a list \<Rightarrow> nat \<Rightarrow> error + 'a" where
  "item_at xs i = (if i < length xs then Inr (xs ! i) else Inl TypeError)"

text \<open>Layer 3.\<close>

definition rapidScore_of :: "history_item list \<Rightarrow> error + int" where
  "rapidScore_of session =
     (if length session \<ge> 3
      then (case item_at session (length session - 1) of
              Inl e \<Rightarrow> Inl e
            | Inr final \<Rightarrow>
                (case item_at session 0 of
                   Inl e \<Rightarrow> Inl e
                 | Inr first \<Rightarrow>
                     (let durationMin = (lastVisitTime final - lastVisitTime first) / 60000
                      in if durationMin > 0
                         then (let ppm = rat_of_nat (length session) / durationMin;
                                   r1 = (if ppm > 3 then 1 else 0);
                                   r2 = (if ppm > 8 then 2 else r1)
                               in Inr r2)
                         else Inr 0)))
      else Inr 0)"

text \<open>Layer 4. A comparison with the NaN of an invalid date is false.\<close>

definition timingScore_of :: "platform \<Rightarrow> rat \<Rightarrow> int" where
  "timingScore_of p t =
     (case (getDay p t, getHours p t) of
        (Some day, Some hour) \<Rightarrow> if day \<ge> 1 \<and> day \<le> 5 \<and> hour \<ge> 9 \<and> hour < 18 then 1 else 0
      | _ \<Rightarrow> 0)"

record breakdown_t =
  urlIntent :: int
  domainVariety :: rat
  rapid :: int
  timing :: int
  workSignals :: int

record scored_session =
  score :: rat
  categories :: "category_hit list"
  domains :: "string list"
  breakdown :: breakdown_t

text \<open>
  \<^verbatim>\<open>scoreSession\<close>. The read \<^verbatim>\<open>session[0].lastVisitTime\<close> of layer 4 is not guarded: on
  the empty session it raises. The sort of the categories is the stable sort of the
  language, by count, largest first.
\<close>

definition scoreSession ::
  "platform \<Rightarrow> history_item list \<Rightarrow> domain_prefs \<Rightarrow> ignore_counts \<Rightarrow> error + scored_session" where
  "scoreSession p session domainPrefs ignoreCounts =
     (let acc = foldl (score_item p domainPrefs ignoreCounts) tally0 session;
          dv = min (rat_of_nat (length (domainSet acc)) / 5) 2
      in case rapidScore_of session of
           Inl e \<Rightarrow> Inl e
         | Inr rapidScore \<Rightarrow>
             (case item_at session 0 of
                Inl e \<Rightarrow> Inl e
              | Inr first \<Rightarrow>
                  (let timingScore = timingScore_of p (lastVisitTime first);
                       total = rat_of_int (urlIntentScore acc) + dv + rat_of_int rapidScore
                               + rat_of_int timingScore
                               - rat_of_int (workSignalScore acc) * (6 / 10)
                   in Inr \<lparr>score = max 0 total,
                           categories = sort_key (\<lambda>e. - hit_count e) (categoryHits acc),
                           domains = domainSet acc,
                           breakdown = \<lparr>urlIntent = urlIntentScore acc, domainVariety = dv,
                                         rapid = rapidScore, timing = timingScore,
                                         workSignals = workSignalScore acc\<rparr>\<rparr>)))"

subsection \<open>Main detection: clustering and scoring\<close>

text \<open>
  An item as the history API hands it over: both fields may be missing. The filter
  \<^verbatim>\<open>i.lastVisitTime && i.url\<close> keeps an item when both are truthy: the time is present and
  not zero, the URL is present and not the empty string.
\<close>

record raw_item =
  raw_url :: "string option"
  raw_lastVisitTime :: "rat option"

definition keep_item :: "raw_item \<Rightarrow> history_item option" where
  "keep_item i =
     (case raw_lastVisitTime i of
        None \<Rightarrow> None
      | Some t \<Rightarrow>
          if t = 0 then None
          else (case raw_url i of
                  None \<Rightarrow> None
                | Some u \<Rightarrow> if u = [] then None else Some \<lparr>url = u, lastVisitTime = t\<rparr>))"

definition SESSION_GAP_MS :: rat where
  "SESSION_GAP_MS = 30 * 60 * 1000"

text \<open>
  The splitting loop: \<open>sessions\<close> and \<open>current\<close> are the variables of the source,
  \<open>prev\<close> is \<^verbatim>\<open>sorted[i - 1]\<close>, the last argument is what is left of \<^verbatim>\<open>sorted\<close>.
\<close>

fun split_sessions ::
  "history_item list list \<Rightarrow> history_item list \<Rightarrow> history_item \<Rightarrow> history_item list
   \<Rightarrow> history_item list list" where
  "split_sessions sessions current prev [] = sessions @ [current]"
| "split_sessions sessions current prev (x # xs) =
     (if lastVisitTime x - lastVisitTime prev > SESSION_GAP_MS
      then split_sessions (sessions @ [current]) [x] x xs
      else split_sessions sessions (current @ [x]) x xs)"

text \<open>
  The first half of \<^verbatim>\<open>detectMixedSessions\<close>, up to \<^verbatim>\<open>sessions.push(current)\<close>: filter,
  stable sort by time, split. Where the source returns \<^verbatim>\<open>[]\<close> early there are no sessions.
\<close>

definition segment :: "raw_item list \<Rightarrow> history_item list list" where
  "segment items =
     (if items = [] then []
      else (case sort_key lastVisitTime (List.map_filter keep_item items) of
              [] \<Rightarrow> []
            | first # rest \<Rightarrow> split_sessions [] [first] first rest))"

text \<open>The identifier \<^verbatim>\<open>session_<sessionStart>\<close>.\<close>

datatype suggestion_id = Session_id rat

record suggestion =
  sug_id :: suggestion_id
  sessionStart :: rat
  sessionEnd :: rat
  totalItems :: nat
  sug_score :: rat
  confidence :: string
  sug_categories :: "category_hit list"
  sug_domains :: "string list"
  allUrls :: "string list"
  sug_breakdown :: breakdown_t

definition mk_suggestion :: "history_item list \<Rightarrow> scored_session \<Rightarrow> error + suggestion" where
  "mk_suggestion session scored =
     (case item_at session 0 of
        Inl e \<Rightarrow> Inl e
      | Inr first \<Rightarrow>
          (case item_at session (length session - 1) of
             Inl e \<Rightarrow> Inl e
           | Inr final \<Rightarrow>
               Inr \<lparr>sug_id = Session_id (lastVisitTime first),
                    sessionStart = lastVisitTime first, sessionEnd = lastVisitTime final,
                    totalItems = length session, sug_score = score scored,
                    confidence = getConfidence (score scored),
                    sug_categories = categories scored, sug_domains = domains scored,
                    allUrls = concat (map urls (categories scored)),
                    sug_breakdown = breakdown scored\<rparr>))"

text \<open>The loop over the sessions; \<open>suggestions\<close> is the list being built.\<close>

fun surface ::
  "platform \<Rightarrow> domain_prefs \<Rightarrow> ignore_counts \<Rightarrow> suggestion list \<Rightarrow> history_item list list
   \<Rightarrow> error + suggestion list" where
  "surface p domainPrefs ignoreCounts suggestions [] = Inr suggestions"
| "surface p domainPrefs ignoreCounts suggestions (session # rest) =
     (if length session < 5 then surface p domainPrefs ignoreCounts suggestions rest
      else (case scoreSession p session domainPrefs ignoreCounts of
              Inl e \<Rightarrow> Inl e
            | Inr scored \<Rightarrow>
                if score scored < CONFIDENCE_THRESHOLD
                then surface p domainPrefs ignoreCounts suggestions rest
                else if length (categories scored) = 0
                then surface p domainPrefs ignoreCounts suggestions rest
                else (case mk_suggestion session scored of
                        Inl e \<Rightarrow> Inl e
                      | Inr s \<Rightarrow>
                          surface p domainPrefs ignoreCounts (suggestions @ [s]) rest)))"

text \<open>
  The comparator \<^verbatim>\<open>b.score - a.score || b.sessionStart - a.sessionStart\<close> puts \<open>a\<close> first
  when its score is larger, or equal with a larger start: the lexicographic order of the
  negated pair. The sort of the language is stable, as \<open>sort_key\<close> is.
\<close>

definition rank_key :: "suggestion \<Rightarrow> rat \<times> rat" where
  "rank_key s = (- sug_score s, - sessionStart s)"

definition detectMixedSessions ::
  "platform \<Rightarrow> raw_item list \<Rightarrow> domain_prefs \<Rightarrow> ignore_counts \<Rightarrow> error + suggestion list" where
  "detectMixedSessions p items domainPrefs ignoreCounts =
     (case surface p domainPrefs ignoreCounts [] (segment items) of
        Inl e \<Rightarrow> Inl e
      | Inr suggestions \<Rightarrow> Inr (take 5 (sort_key rank_key suggestions)))"

subsection \<open>The message IGNORE\_SUGGESTION\<close>

text \<open>
  The handler adds 1 to what it reads, so here the value of a property matters beyond
  being a number: a counter is a number, or the text that \<^verbatim>\<open>+\<close> makes of a value that is
  not a number.
\<close>

datatype counter_value = Count int | Text string

type_synonym counter_store = "string \<rightharpoonup> counter_value"

text \<open>
  \<^verbatim>\<open>counts\<close> is a plain object: a read of a name that it does not have itself goes on to
  \<^verbatim>\<open>Object.prototype\<close>. Its members are native functions (\<^verbatim>\<open>constructor\<close> is the function
  \<^verbatim>\<open>Object\<close>, every other one is named as its key) and the accessor \<^verbatim>\<open>__proto__\<close>, whose
  value is the prototype object itself.
\<close>

datatype inherited = Native_function string | Prototype_object

definition object_prototype :: "string \<Rightarrow> inherited option" where
  "object_prototype k =
     (if k = ''constructor'' then Some (Native_function ''Object'')
      else if k \<in> set [''__defineGetter__'', ''__defineSetter__'', ''hasOwnProperty'',
                        ''__lookupGetter__'', ''__lookupSetter__'', ''isPrototypeOf'',
                        ''propertyIsEnumerable'', ''toString'', ''valueOf'', ''toLocaleString'']
      then Some (Native_function k)
      else if k = ''__proto__'' then Some Prototype_object
      else None)"

text \<open>The text of a native function, as the engine of the browser prints it.\<close>

definition native_text :: "string \<Rightarrow> string" where
  "native_text name = ''function '' @ name @ ''() { [native code] }''"

text \<open>What the handler reads from and writes to storage; a key may be missing before.\<close>

record store =
  ignoredSessions :: "suggestion_id list option"
  domainIgnoreCounts :: "counter_store option"

record ignore_msg =
  msg_id :: suggestion_id
  msg_domains :: "string list option"

text \<open>\<^verbatim>\<open>domain.split(".").slice(-2).join(".")\<close>.\<close>

definition ignore_root :: "string \<Rightarrow> string" where
  "ignore_root domain = join_dot (slice_last2 (split_dot domain))"

text \<open>
  \<^verbatim>\<open>(counts[root] || 0) + 1\<close>. A number gets 1 more, zero and the empty text and a missing
  property count as 0; to any other text, and to the text of an inherited member, \<^verbatim>\<open>+\<close>
  appends the digit.
\<close>

definition plus_one :: "counter_store \<Rightarrow> string \<Rightarrow> counter_value" where
  "plus_one counts key =
     (case counts key of
        Some (Count n) \<Rightarrow> Count (n + 1)
      | Some (Text s) \<Rightarrow> if s = [] then Count 1 else Text (s @ ''1'')
      | None \<Rightarrow>
          (case object_prototype key of
             None \<Rightarrow> Count 1
           | Some (Native_function f) \<Rightarrow> Text (native_text f @ ''1'')
           | Some Prototype_object \<Rightarrow> Text ''[object Object]1''))"

text \<open>
  \<^verbatim>\<open>counts[root] = v\<close> with a value that is not an object: it makes or changes a property
  of \<^verbatim>\<open>counts\<close>, except that with the name \<^verbatim>\<open>__proto__\<close>, when \<^verbatim>\<open>counts\<close> has no such
  property itself, the inherited setter takes the value and ignores it.
\<close>

definition assign :: "counter_store \<Rightarrow> string \<Rightarrow> counter_value \<Rightarrow> counter_store" where
  "assign counts key v =
     (if key = ''__proto__'' \<and> counts key = None then counts else counts(key \<mapsto> v))"

text \<open>The body of the \<^verbatim>\<open>forEach\<close>: \<^verbatim>\<open>counts[root] = (counts[root] || 0) + 1\<close>.\<close>

definition bump :: "counter_store \<Rightarrow> string \<Rightarrow> counter_store" where
  "bump counts domain =
     (let root = ignore_root domain
      in assign counts root (plus_one counts root))"

definition ignore_suggestion :: "store \<Rightarrow> ignore_msg \<Rightarrow> store" where
  "ignore_suggestion data msg =
     (let ignored = (case ignoredSessions data of None \<Rightarrow> [] | Some l \<Rightarrow> l);
          counts = (case domainIgnoreCounts data of None \<Rightarrow> Map.empty | Some c \<Rightarrow> c);
          ignored1 = (if msg_id msg \<in> set ignored then ignored else ignored @ [msg_id msg]);
          counts1 = foldl bump counts (case msg_domains msg of None \<Rightarrow> [] | Some ds \<Rightarrow> ds)
      in \<lparr>ignoredSessions = Some ignored1, domainIgnoreCounts = Some counts1\<rparr>)"

subsection \<open>Notions used to state the properties\<close>

text \<open>The time from the first to the last item of a session, in milliseconds.\<close>

definition duration_ms :: "history_item list \<Rightarrow> rat" where
  "duration_ms session = lastVisitTime (last session) - lastVisitTime (hd session)"

text \<open>
  The rapid-navigation rule in the words of the specification: pages per minute is the
  item count over the duration in minutes, and the tier is the highest one that the
  quotient exceeds. The quotient is taken as the arithmetic of the source takes it: a
  positive count over a zero duration is \<^verbatim>\<open>Infinity\<close>, which exceeds every bound.
\<close>

datatype quotient = Finite rat | Infinity

definition spec_pagesPerMinute :: "history_item list \<Rightarrow> quotient" where
  "spec_pagesPerMinute session =
     (if duration_ms session = 0 then Infinity
      else Finite (rat_of_nat (length session) / (duration_ms session / 60000)))"

definition spec_rapidNavigation :: "history_item list \<Rightarrow> int" where
  "spec_rapidNavigation session =
     (if length session < 3 then 0
      else (case spec_pagesPerMinute session of
              Infinity \<Rightarrow> 2
            | Finite ppm \<Rightarrow> if ppm > 8 then 2 else if ppm > 3 then 1 else 0))"

text \<open>Two neighbours of one session; the last item of a session and the first of the next.\<close>

definition close_gap :: "history_item \<Rightarrow> history_item \<Rightarrow> bool" where
  "close_gap a b = (lastVisitTime b - lastVisitTime a \<le> 1800000)"

definition wide_gap :: "history_item list \<Rightarrow> history_item list \<Rightarrow> bool" where
  "wide_gap s1 s2 = (lastVisitTime (hd s2) - lastVisitTime (last s1) > 1800000)"

text \<open>An item that has both fields, whatever their values.\<close>

definition has_url_and_time :: "raw_item \<Rightarrow> bool" where
  "has_url_and_time i = (raw_url i \<noteq> None \<and> raw_lastVisitTime i \<noteq> None)"

text \<open>A session that clears the three bars of the ranker.\<close>

definition qualifies :: "platform \<Rightarrow> domain_prefs \<Rightarrow> ignore_counts \<Rightarrow> history_item list \<Rightarrow> bool" where
  "qualifies p domainPrefs ignoreCounts session =
     (length session \<ge> 5 \<and>
      (case scoreSession p session domainPrefs ignoreCounts of
         Inl e \<Rightarrow> False
       | Inr scored \<Rightarrow> score scored \<ge> 4 \<and> categories scored \<noteq> []))"

text \<open>The suggestion that the loop over the sessions adds for one session, if any.\<close>

definition candidate ::
  "platform \<Rightarrow> domain_prefs \<Rightarrow> ignore_counts \<Rightarrow> history_item list \<Rightarrow> suggestion option" where
  "candidate p domainPrefs ignoreCounts session =
     (if length session < 5 then None
      else (case scoreSession p session domainPrefs ignoreCounts of
              Inl e \<Rightarrow> None
            | Inr scored \<Rightarrow>
                if score scored < CONFIDENCE_THRESHOLD \<or> categories scored = [] then None
                else (case mk_suggestion session scored of Inl e \<Rightarrow> None | Inr s \<Rightarrow> Some s)))"

text \<open>The counter of a key, with a missing counter read as zero.\<close>

definition old_count :: "ignore_counts \<Rightarrow> string \<Rightarrow> int" where
  "old_count counts k = (case counts k of None \<Rightarrow> 0 | Some n \<Rightarrow> n)"

text \<open>A map of numeric counters as the object that the handler reads.\<close>

definition number_store :: "ignore_counts \<Rightarrow> counter_store" where
  "number_store counts k = map_option Count (counts k)"

subsection \<open>An example platform\<close>

text \<open>
  A browser whose local time zone is UTC, with the URL parser given on the few URLs of
  the examples by what the standard parser answers on them; every other string is taken
  as one that does not parse. Day 0 of the epoch was a Thursday (day 4 of the week).
\<close>

definition example_URL :: "string \<Rightarrow> parsed_url option" where
  "example_URL s =
     (if s = ''https://youtube.com/watch?x''
      then Some \<lparr>hostname = ''youtube.com'', pathname = ''/watch'', search = ''?x''\<rparr>
      else if s = ''https://youtube.com/watch?y''
      then Some \<lparr>hostname = ''youtube.com'', pathname = ''/watch'', search = ''?y''\<rparr>
      else if s = ''https://youtube.com/shorts''
      then Some \<lparr>hostname = ''youtube.com'', pathname = ''/shorts'', search = []\<rparr>
      else if s = ''https://youtube.com/feed''
      then Some \<lparr>hostname = ''youtube.com'', pathname = ''/feed'', search = []\<rparr>
      else if s = ''https://youtube.com/explore''
      then Some \<lparr>hostname = ''youtube.com'', pathname = ''/explore'', search = []\<rparr>
      else if s = ''https://www.instagram.com/reels/abc''
      then Some \<lparr>hostname = ''www.instagram.com'', pathname = ''/reels/abc'', search = []\<rparr>
      else if s = ''https://www.instagram.com/REELS/Abc?Q=1''
      then Some \<lparr>hostname = ''www.instagram.com'', pathname = ''/REELS/Abc'', search = ''?Q=1''\<rparr>
      else None)"

definition example_ms :: "rat \<Rightarrow> int option" where
  "example_ms t =
     (if \<bar>t\<bar> \<le> 8640000000000000 then Some (if t \<ge> 0 then \<lfloor>t\<rfloor> else \<lceil>t\<rceil>) else None)"

definition example_platform :: platform where
  "example_platform =
     \<lparr>URL = example_URL,
      getHours = (\<lambda>t. map_option (\<lambda>ms. (ms div 3600000) mod 24) (example_ms t)),
      getDay = (\<lambda>t. map_option (\<lambda>ms. (ms div 86400000 + 4) mod 7) (example_ms t))\<rparr>"

definition example_items :: "raw_item list" where
  "example_items =
     [\<lparr>raw_url = Some ''https://youtube.com/watch?x'', raw_lastVisitTime = Some 1704290400000\<rparr>,
      \<lparr>raw_url = Some ''https://youtube.com/watch?y'', raw_lastVisitTime = Some 1704290430000\<rparr>,
      \<lparr>raw_url = Some ''https://youtube.com/shorts'', raw_lastVisitTime = Some 1704290460000\<rparr>,
      \<lparr>raw_url = Some ''https://youtube.com/feed'', raw_lastVisitTime = Some 1704290490000\<rparr>,
      \<lparr>raw_url = Some ''https://youtube.com/explore'', raw_lastVisitTime = Some 1704290520000\<rparr>]"

definition example_session :: "history_item list" where
  "example_session =
     [\<lparr>url = ''https://youtube.com/watch?x'', lastVisitTime = 1704290400000\<rparr>,
      \<lparr>url = ''https://youtube.com/watch?y'', lastVisitTime = 1704290430000\<rparr>,
      \<lparr>url = ''https://youtube.com/shorts'', lastVisitTime = 1704290460000\<rparr>,
      \<lparr>url = ''https://youtube.com/feed'', lastVisitTime = 1704290490000\<rparr>,
      \<lparr>url = ''https://youtube.com/explore'', lastVisitTime = 1704290520000\<rparr>]"

text \<open>Three visits at the same instant.\<close>

definition same_instant :: "history_item list" where
  "same_instant =
     [\<lparr>url = ''https://youtube.com/feed'', lastVisitTime = 1704290400000\<rparr>,
      \<lparr>url = ''https://youtube.com/feed'', lastVisitTime = 1704290400000\<rparr>,
      \<lparr>url = ''https://youtube.com/feed'', lastVisitTime = 1704290400000\<rparr>]"

text \<open>An item whose time is present and is the epoch itself.\<close>

definition epoch_item :: raw_item where
  "epoch_item = \<lparr>raw_url = Some ''https://youtube.com/feed'', raw_lastVisitTime = Some 0\<rparr>"

text \<open>A visit of a video page, and an item whose URL does not parse.\<close>

definition watch_item :: history_item where
  "watch_item = \<lparr>url = ''https://youtube.com/watch?x'', lastVisitTime = 1704290400000\<rparr>"

definition broken_item :: history_item where
  "broken_item = \<lparr>url = ''no url'', lastVisitTime = 1704290400000\<rparr>"

subsection \<open>The end-to-end example\<close>

text \<open>
  Five visits of \<^verbatim>\<open>youtube.com\<close>, thirty seconds apart from the time \<open>t\<close> on, so that the
  last is two minutes after the first; as the history API hands them over, and as a
  session. \<open>youtube_parser\<close> says that the platform parses the five URLs as the standard
  parser does, \<open>youtube_platform\<close> also that \<open>t\<close> is a Wednesday (day 3) at 14 hours
  local time. \<open>youtube_suggestion\<close> is the suggestion of such a session.
\<close>

definition youtube_url :: "string \<Rightarrow> string \<Rightarrow> parsed_url" where
  "youtube_url path query = \<lparr>hostname = ''youtube.com'', pathname = path, search = query\<rparr>"

definition youtube_items :: "rat \<Rightarrow> raw_item list" where
  "youtube_items t =
     [\<lparr>raw_url = Some ''https://youtube.com/watch?x'', raw_lastVisitTime = Some t\<rparr>,
      \<lparr>raw_url = Some ''https://youtube.com/watch?y'', raw_lastVisitTime = Some (t + 30000)\<rparr>,
      \<lparr>raw_url = Some ''https://youtube.com/shorts'', raw_lastVisitTime = Some (t + 60000)\<rparr>,
      \<lparr>raw_url = Some ''https://youtube.com/feed'', raw_lastVisitTime = Some (t + 90000)\<rparr>,
      \<lparr>raw_url = Some ''https://youtube.com/explore'', raw_lastVisitTime = Some (t + 120000)\<rparr>]"

definition youtube_session :: "rat \<Rightarrow> history_item list" where
  "youtube_session t =
     [\<lparr>url = ''https://youtube.com/watch?x'', lastVisitTime = t\<rparr>,
      \<lparr>url = ''https://youtube.com/watch?y'', lastVisitTime = t + 30000\<rparr>,
      \<lparr>url = ''https://youtube.com/shorts'', lastVisitTime = t + 60000\<rparr>,
      \<lparr>url = ''https://youtube.com/feed'', lastVisitTime = t + 90000\<rparr>,
      \<lparr>url = ''https://youtube.com/explore'', lastVisitTime = t + 120000\<rparr>]"

definition youtube_categories :: "category_hit list" where
  "youtube_categories =
     [\<lparr>hit_category = ''entertainment'', hit_label = ''Video & Entertainment'', icon = 0x1F3AC,
       hit_count = 3,
       urls = [''https://youtube.com/watch?x'', ''https://youtube.com/watch?y'',
               ''https://youtube.com/shorts'']\<rparr>,
      \<lparr>hit_category = ''social'', hit_label = ''Social Media'', icon = 0x1F4F1,
       hit_count = 2,
       urls = [''https://youtube.com/feed'', ''https://youtube.com/explore'']\<rparr>]"

definition youtube_suggestion :: "platform \<Rightarrow> rat \<Rightarrow> suggestion" where
  "youtube_suggestion p t =
     \<lparr>sug_id = Session_id t, sessionStart = t, sessionEnd = t + 120000, totalItems = 5,
      sug_score = 82 / 10 + rat_of_int (timingScore_of p t),
      confidence = getConfidence (82 / 10 + rat_of_int (timingScore_of p t)),
      sug_categories = youtube_categories, sug_domains = [''youtube.com''],
      allUrls = [''https://youtube.com/watch?x'', ''https://youtube.com/watch?y'',
                 ''https://youtube.com/shorts'', ''https://youtube.com/feed'',
                 ''https://youtube.com/explore''],
      sug_breakdown = \<lparr>urlIntent = 8, domainVariety = 2 / 10, rapid = 0,
                        timing = timingScore_of p t, workSignals = 0\<rparr>\<rparr>"

definition youtube_parser :: "platform \<Rightarrow> bool" where
  "youtube_parser p =
     (URL p ''https://youtube.com/watch?x'' = Some (youtube_url ''/watch'' ''?x'') \<and>
      URL p ''https://youtube.com/watch?y'' = Some (youtube_url ''/watch'' ''?y'') \<and>
      URL p ''https://youtube.com/shorts'' = Some (youtube_url ''/shorts'' []) \<and>
      URL p ''https://youtube.com/feed'' = Some (youtube_url ''/feed'' []) \<and>
      URL p ''https://youtube.com/explore'' = Some (youtube_url ''/explore'' []))"

definition youtube_platform :: "platform \<Rightarrow> rat \<Rightarrow> bool" where
  "youtube_platform p t = (youtube_parser p \<and> getDay p t = Some 3 \<and> getHours p t = Some 14)"

text \<open>Seven such sessions, one a day at 14:00 UTC, from Wednesday 3 January 2024 on.\<close>

definition week_starts :: "rat list" where
  "week_starts = [1704290400000, 1704376800000, 1704463200000, 1704549600000,
                  1704636000000, 1704722400000, 1704808800000]"

definition week_items :: "raw_item list" where
  "week_items = concat (map youtube_items week_starts)"

section \<open>Properties\<close>

subsection \<open>Lemmas: the scorer\<close>

lemma item_at_first: "item_at (x # xs) 0 = Inr x"
  by (simp add: item_at_def)

lemma item_at_final: "xs \<noteq> [] \<Longrightarrow> item_at xs (length xs - 1) = Inr (last xs)"
  by (simp add: item_at_def last_conv_nth)

lemma rapidScore_of_eq:
  "rapidScore_of session =
     Inr (if length session \<ge> 3 \<and> duration_ms session > 0
          then (if rat_of_nat (length session) / (duration_ms session / 60000) > 8 then 2
                else if rat_of_nat (length session) / (duration_ms session / 60000) > 3 then 1
                else 0)
          else 0)"
proof (cases "length session \<ge> 3")
  case False
  then show ?thesis by (simp add: rapidScore_of_def)
next
  case True
  then obtain x xs where s: "session = x # xs" by (cases session) auto
  have f: "item_at session (length session - 1) = Inr (last session)"
    using s item_at_final[of session] by simp
  have g: "item_at session 0 = Inr (hd session)"
    using s item_at_first by simp
  show ?thesis
    unfolding rapidScore_of_def f g duration_ms_def
    by (simp add: Let_def True)
qed

lemma rapidScore_of_range: "\<exists>r. rapidScore_of session = Inr r \<and> 0 \<le> r \<and> r \<le> 2"
  by (simp add: rapidScore_of_eq)

lemma timingScore_of_range: "0 \<le> timingScore_of p t \<and> timingScore_of p t \<le> 1"
  by (simp add: timingScore_of_def split: option.splits)

lemma scoreSession_Nil: "scoreSession p [] dp ic = Inl TypeError"
  by (simp add: scoreSession_def rapidScore_of_def item_at_def Let_def)

subsection \<open>Lemmas: the classifier\<close>

lemma starts_with_prefix: "starts_with s p = prefix p s"
  by (induction s p rule: starts_with.induct) auto

lemma includes_str_sublist: "includes_str s p = sublist p s"
proof (induction s)
  case Nil
  then show ?case by (simp add: starts_with_prefix)
next
  case (Cons d s)
  then show ?case by (simp add: starts_with_prefix sublist_Cons_right)
qed

lemma lower_example: "toLowerCase ''/REELS/Abc?Q=1'' = ''/reels/abc?q=1''"
  by code_simp

lemma lower_alphabet: "toLowerCase ''ABCDEFGHIJKLMNOPQRSTUVWXYZ'' = ''abcdefghijklmnopqrstuvwxyz''"
  by code_simp

lemma length_toLowerCase: "length (toLowerCase s) = length s"
  by (simp add: toLowerCase_def)

lemma toLowerCase_append: "toLowerCase (a @ b) = toLowerCase a @ toLowerCase b"
  by (simp add: toLowerCase_def)

lemma upper_codes:
  assumes "65 \<le> (of_char c :: nat) \<and> (of_char c :: nat) \<le> 90"
  shows "c \<in> set ''ABCDEFGHIJKLMNOPQRSTUVWXYZ''"
proof -
  have "(of_char c :: nat) \<in> of_char ` set ''ABCDEFGHIJKLMNOPQRSTUVWXYZ''"
    using assms by simp arith
  then obtain d where d: "d \<in> set ''ABCDEFGHIJKLMNOPQRSTUVWXYZ''"
    and e: "(of_char c :: nat) = of_char d"
    by (rule imageE)
  have "char_of (of_char c :: nat) = char_of (of_char d :: nat)" using e by simp
  then have "c = d" by simp
  then show ?thesis using d by simp
qed

lemma lower_keeps_other: "set s \<inter> set ''ABCDEFGHIJKLMNOPQRSTUVWXYZ'' = {} \<Longrightarrow> toLowerCase s = s"
proof -
  assume d: "set s \<inter> set ''ABCDEFGHIJKLMNOPQRSTUVWXYZ'' = {}"
  have "lower_char c = c" if "c \<in> set s" for c
  proof -
    have "c \<notin> set ''ABCDEFGHIJKLMNOPQRSTUVWXYZ''" using d that by blast
    then show ?thesis using upper_codes[of c] by (auto simp add: lower_char_def Let_def)
  qed
  then show ?thesis by (simp add: toLowerCase_def map_idI)
qed

lemma sublist_toLowerCase: "sublist w s \<Longrightarrow> sublist (toLowerCase w) (toLowerCase s)"
  unfolding sublist_def toLowerCase_def by (metis map_append)

lemma first_match_find:
  "first_match path rules = List.find (\<lambda>r. includes_str path (match r)) rules"
  by (induction rules) auto

lemma first_match_None:
  "(first_match path rules = None) = (\<forall>r\<in>set rules. \<not> sublist (match r) path)"
  by (auto simp add: first_match_find find_None_iff includes_str_sublist)

lemma first_match_Some:
  "(first_match path rules = Some r) =
     (\<exists>i<length rules. rules ! i = r \<and> sublist (match r) path
        \<and> (\<forall>j<i. \<not> sublist (match (rules ! j)) path))"
  by (auto simp add: first_match_find find_Some_iff includes_str_sublist)

lemma getPath_unparsed: "URL p u = None \<Longrightarrow> getPath p u = []"
  by (simp add: getPath_def)

lemma first_match_empty_path: "first_match [] URL_INTENT_RULES = None"
  by (simp add: URL_INTENT_RULES_def mk_rule_def)

lemma reels_has_reel: "sublist ''/reels'' path \<Longrightarrow> sublist ''/reel'' path"
proof -
  assume "sublist ''/reels'' path"
  moreover have "sublist ''/reel'' ''/reels''"
    by (simp add: sublist_code prefix_code)
  ultimately show ?thesis using sublist_order.order_trans by blast
qed

lemma nth6: "URL_INTENT_RULES ! 6 = mk_rule ''/reels'' 2 ''social'' ''Social''"
  by (simp add: URL_INTENT_RULES_def)
lemma first_match_prefix_bound:
  "sublist (match (rules ! k)) path \<Longrightarrow> k < length rules \<Longrightarrow>
   \<exists>i\<le>k. first_match path rules = Some (rules ! i)"
proof (induction rules arbitrary: k)
  case Nil
  then show ?case by simp
next
  case (Cons r rs)
  show ?case
  proof (cases "sublist (match r) path")
    case True
    then have "first_match path (r # rs) = Some ((r # rs) ! 0)"
      by (simp add: includes_str_sublist)
    then show ?thesis by blast
  next
    case False
    then obtain k' where k': "k = Suc k'" using Cons.prems by (cases k) auto
    then obtain i where "i \<le> k'" "first_match path rs = Some (rs ! i)"
      using Cons.IH[of k'] Cons.prems by auto
    then have "Suc i \<le> k \<and> first_match path (r # rs) = Some ((r # rs) ! Suc i)"
      using False k' by (simp add: includes_str_sublist)
    then show ?thesis by blast
  qed
qed

lemma length_rules: "length URL_INTENT_RULES = 36"
  by (simp add: URL_INTENT_RULES_def)


subsection \<open>Lemmas: the ignore counters\<close>

lemma split_dot_nonempty: "split_dot s \<noteq> []"
  by (induction s) (auto split: list.splits)

lemma join_split_dot: "join_dot (split_dot s) = s"
proof (induction s)
  case Nil
  then show ?case by simp
next
  case (Cons c s)
  obtain w ws where ws: "split_dot s = w # ws"
    using split_dot_nonempty[of s] by (cases "split_dot s") auto
  show ?case
  proof (cases "c = CHR ''.''")
    case True
    then show ?thesis using Cons ws by simp
  next
    case False
    then show ?thesis using Cons ws by (cases ws) auto
  qed
qed

lemma root_domains_agree:
  "(if length (split_dot h) > 2 then join_dot (slice_last2 (split_dot h)) else h) = ignore_root h"
  by (simp add: ignore_root_def slice_last2_def join_split_dot)

lemma split_dot_plain: "CHR ''.'' \<notin> set a \<Longrightarrow> split_dot a = [a]"
  by (induction a) auto

lemma split_dot_append: "split_dot (pre @ CHR ''.'' # s) = split_dot pre @ split_dot s"
proof (induction pre)
  case Nil
  then show ?case by simp
next
  case (Cons c pre)
  obtain w ws where ws: "split_dot pre = w # ws"
    using split_dot_nonempty[of pre] by (cases "split_dot pre") auto
  show ?case using Cons ws by simp
qed

lemma ignore_root_plain:
  assumes "CHR ''.'' \<notin> set a"
  shows "ignore_root a = a"
  by (simp add: ignore_root_def split_dot_plain[OF assms] slice_last2_def)

lemma ignore_root_two:
  assumes "CHR ''.'' \<notin> set a" "CHR ''.'' \<notin> set b"
  shows "ignore_root (a @ CHR ''.'' # b) = a @ CHR ''.'' # b"
  by (simp add: ignore_root_def split_dot_append split_dot_plain[OF assms(1)]
      split_dot_plain[OF assms(2)] slice_last2_def)

lemma ignore_root_more:
  assumes "CHR ''.'' \<notin> set a" "CHR ''.'' \<notin> set b"
  shows "ignore_root (pre @ CHR ''.'' # a @ CHR ''.'' # b) = a @ CHR ''.'' # b"
proof -
  have "split_dot (pre @ CHR ''.'' # a @ CHR ''.'' # b) = split_dot pre @ [a, b]"
    by (simp add: split_dot_append split_dot_plain[OF assms(1)] split_dot_plain[OF assms(2)])
  moreover have "length (split_dot pre) > 0" using split_dot_nonempty[of pre] by simp
  ultimately show ?thesis by (simp add: ignore_root_def slice_last2_def)
qed

lemma bump_number:
  assumes "object_prototype (ignore_root d) = None"
  shows "bump (number_store counts) d
           = number_store (counts(ignore_root d \<mapsto> old_count counts (ignore_root d) + 1))"
proof -
  have p: "ignore_root d \<noteq> ''__proto__''"
    using assms by (auto simp: object_prototype_def)
  show ?thesis
  proof
    fix k
    show "bump (number_store counts) d k
           = number_store (counts(ignore_root d \<mapsto> old_count counts (ignore_root d) + 1)) k"
      using assms p
      by (simp add: bump_def Let_def assign_def plus_one_def number_store_def old_count_def
          split: option.splits)
  qed
qed

lemma foldl_bump_number:
  assumes "list_all (\<lambda>d. object_prototype (ignore_root d) = None) ds"
  shows "foldl bump (number_store counts) ds k =
     (if filter (\<lambda>d. ignore_root d = k) ds = [] then number_store counts k
      else Some (Count (old_count counts k + int (length (filter (\<lambda>d. ignore_root d = k) ds)))))"
  using assms
proof (induction ds arbitrary: counts)
  case Nil
  then show ?case by simp
next
  case (Cons d ds)
  have h: "object_prototype (ignore_root d) = None" using Cons.prems by simp
  have r: "list_all (\<lambda>d. object_prototype (ignore_root d) = None) ds" using Cons.prems by simp
  show ?case
    by (simp add: bump_number[OF h] Cons.IH[OF r]) (simp add: number_store_def old_count_def)
qed

lemma constructor_bump:
  "foldl bump Map.empty [''constructor'']
     = [''constructor'' \<mapsto> Text ''function Object() { [native code] }1'']"
proof -
  have r: "ignore_root ''constructor'' = ''constructor''"
    by (rule ignore_root_plain) simp
  show ?thesis
    by (simp add: bump_def r Let_def plus_one_def assign_def object_prototype_def native_text_def)
qed

subsection \<open>Lemmas: segmentation\<close>

lemma concat_split_sessions:
  "concat (split_sessions sessions current prev xs) = concat sessions @ current @ xs"
  by (induction sessions current prev xs rule: split_sessions.induct) auto

lemma split_sessions_inner:
  "current \<noteq> [] \<Longrightarrow> last current = prev \<Longrightarrow> successively close_gap current \<Longrightarrow>
   list_all (\<lambda>s. s \<noteq> [] \<and> successively close_gap s) sessions \<Longrightarrow>
   list_all (\<lambda>s. s \<noteq> [] \<and> successively close_gap s) (split_sessions sessions current prev xs)"
proof (induction sessions current prev xs rule: split_sessions.induct)
  case (1 sessions current prev)
  then show ?case by simp
next
  case (2 sessions current prev x xs)
  show ?case
  proof (cases "lastVisitTime x - lastVisitTime prev > SESSION_GAP_MS")
    case True
    then show ?thesis using 2 by simp
  next
    case False
    have "successively close_gap (current @ [x])"
      using 2(3,4,5) False by (simp add: successively_append_iff close_gap_def SESSION_GAP_MS_def)
    then show ?thesis using 2 False by simp
  qed
qed

lemma split_sessions_cross:
  "current \<noteq> [] \<Longrightarrow> last current = prev \<Longrightarrow> successively wide_gap (sessions @ [current]) \<Longrightarrow>
   successively wide_gap (split_sessions sessions current prev xs)"
proof (induction sessions current prev xs rule: split_sessions.induct)
  case (1 sessions current prev)
  then show ?case by simp
next
  case (2 sessions current prev x xs)
  show ?case
  proof (cases "lastVisitTime x - lastVisitTime prev > SESSION_GAP_MS")
    case True
    have "successively wide_gap ((sessions @ [current]) @ [[x]])"
      using 2(3,4,5) True by (simp add: successively_append_iff wide_gap_def SESSION_GAP_MS_def)
    then show ?thesis using 2(1) True by simp
  next
    case False
    have "successively wide_gap (sessions @ [current @ [x]])"
      using 2(3,5) by (auto simp add: successively_append_iff wide_gap_def SESSION_GAP_MS_def)
    then show ?thesis using 2(2) False by simp
  qed
qed

subsection \<open>Claims about the scorer\<close>

text \<open>
  C6. For every non-empty session and every preference map and ignore-count map,
  \<^verbatim>\<open>scoreSession\<close> returns a scored session and its score is at least 0.
\<close>

theorem score_never_negative:
  assumes "session \<noteq> []"
  shows "\<exists>r. scoreSession p session domainPrefs ignoreCounts = Inr r \<and> score r \<ge> 0"
proof -
  obtain x xs where s: "session = x # xs" using assms by (cases session) auto
  obtain k where k: "rapidScore_of session = Inr k" using rapidScore_of_range by blast
  show ?thesis
    unfolding scoreSession_def k s[symmetric]
    by (simp add: s item_at_first Let_def)
qed

theorem score_never_negative_witness:
  "example_session \<noteq> [] \<and>
   (\<exists>r. scoreSession example_platform example_session Map.empty Map.empty = Inr r \<and> score r \<ge> 0)"
proof -
  have h: "example_session \<noteq> []" by (simp add: example_session_def)
  show ?thesis
    using h score_never_negative [OF h, of example_platform Map.empty Map.empty] by simp
qed

text \<open>
  C10. On every non-empty session, with any preference and ignore-count maps, the reads of
  the first item (timing) and of the last item (duration) are in bounds and
  \<^verbatim>\<open>scoreSession\<close> returns a scored session. Non-emptiness is needed: on the empty
  session the read of the first item raises.
\<close>

theorem scoreSession_total:
  "(session \<noteq> [] \<longrightarrow>
      (\<exists>first. item_at session 0 = Inr first) \<and>
      (\<exists>final. item_at session (length session - 1) = Inr final) \<and>
      (\<exists>r. scoreSession p session domainPrefs ignoreCounts = Inr r)) \<and>
   scoreSession p [] domainPrefs ignoreCounts = Inl TypeError"
proof -
  have "\<exists>r. scoreSession p session domainPrefs ignoreCounts = Inr r" if ne: "session \<noteq> []"
  proof -
    obtain x xs where s: "session = x # xs" using ne by (cases session) auto
    obtain k where k: "rapidScore_of session = Inr k" using rapidScore_of_range by blast
    show ?thesis
      unfolding scoreSession_def k s[symmetric]
      by (simp add: s item_at_first Let_def)
  qed
  moreover have "\<exists>first. item_at session 0 = Inr first" if "session \<noteq> []"
    using that by (cases session) (auto simp: item_at_first)
  moreover have "\<exists>final. item_at session (length session - 1) = Inr final" if "session \<noteq> []"
    using that item_at_final by blast
  ultimately show ?thesis using scoreSession_Nil by blast
qed

theorem scoreSession_total_witness:
  "example_session \<noteq> [] \<and>
   (\<exists>r. scoreSession example_platform example_session Map.empty Map.empty = Inr r) \<and>
   scoreSession example_platform [] Map.empty Map.empty = Inl TypeError"
proof -
  have h: "example_session \<noteq> []" by (simp add: example_session_def)
  show ?thesis
    using h scoreSession_total [of example_session example_platform Map.empty Map.empty]
    by simp
qed

lemma scoreSession_rapid:
  assumes "session \<noteq> []"
  shows "\<exists>r k. scoreSession p session dp ic = Inr r \<and> rapidScore_of session = Inr k
           \<and> rapid (breakdown r) = k"
proof -
  obtain x xs where s: "session = x # xs" using assms by (cases session) auto
  obtain k where k: "rapidScore_of session = Inr k" using rapidScore_of_range by blast
  show ?thesis
    unfolding scoreSession_def k s[symmetric]
    by (simp add: s item_at_first Let_def)
qed

text \<open>
  C5, as the code has it. For every non-empty session the rapid-navigation component is
  the tier of the specification (0 below three items; else 2 when pages per minute exceed
  8, 1 when they exceed 3, 0 otherwise), except that a session of three or more items
  whose first and last timestamps coincide gets 0: the source computes the quotient only
  under the guard \<^verbatim>\<open>durationMin > 0\<close>.
\<close>

theorem rapid_tier:
  assumes "session \<noteq> []"
  shows "\<exists>r. scoreSession p session domainPrefs ignoreCounts = Inr r \<and>
             rapid (breakdown r) =
               (if length session \<ge> 3 \<and> duration_ms session = 0 then 0
                else spec_rapidNavigation session)"
proof -
  obtain r k where r: "scoreSession p session domainPrefs ignoreCounts = Inr r"
    and k: "rapidScore_of session = Inr k" and rk: "rapid (breakdown r) = k"
    using scoreSession_rapid[OF assms] by blast
  have neg: "rat_of_nat (length session) / (duration_ms session / 60000) \<le> 0"
    if "duration_ms session < 0"
    using that by (intro divide_nonneg_neg) auto
  have "k = (if length session \<ge> 3 \<and> duration_ms session = 0 then 0
             else spec_rapidNavigation session)"
  proof (cases "duration_ms session < 0")
    case True
    then show ?thesis
      using k neg[OF True] unfolding rapidScore_of_eq
      by (simp add: spec_rapidNavigation_def spec_pagesPerMinute_def)
  next
    case False
    then show ?thesis
      using k unfolding rapidScore_of_eq
      by (auto simp: spec_rapidNavigation_def spec_pagesPerMinute_def)
  qed
  then show ?thesis using r rk by simp
qed

theorem rapid_tier_witness:
  "example_session \<noteq> [] \<and>
   (\<exists>r. scoreSession example_platform example_session Map.empty Map.empty = Inr r \<and>
        rapid (breakdown r) = 0 \<and> spec_rapidNavigation example_session = 0)"
proof -
  have h: "example_session \<noteq> []" by (simp add: example_session_def)
  have d: "duration_ms example_session = 120000" "length example_session = 5"
    by (simp_all add: example_session_def duration_ms_def)
  have s: "spec_rapidNavigation example_session = 0"
    by (simp add: spec_rapidNavigation_def spec_pagesPerMinute_def d)
  show ?thesis
    using h s d rapid_tier [OF h, of example_platform Map.empty Map.empty] by simp
qed

text \<open>
  C5 as stated fails on three visits at the same instant: the duration is zero, pages per
  minute is not a finite number and exceeds every tier bound, so the stated rule gives 2;
  the source gives 0.
\<close>

theorem rapid_tier_counterexample:
  "length same_instant \<ge> 3 \<and> spec_rapidNavigation same_instant = 2 \<and>
   map_sum id (\<lambda>r. rapid (breakdown r))
     (scoreSession example_platform same_instant Map.empty Map.empty) = Inr 0"
  by (simp add: same_instant_def spec_rapidNavigation_def spec_pagesPerMinute_def duration_ms_def
      scoreSession_def rapidScore_of_def item_at_def Let_def)

lemma match_before_reel:
  assumes "i \<le> 6"
  shows "match (URL_INTENT_RULES ! i) \<noteq> ''/reel''"
proof -
  have "i = 0 \<or> i = 1 \<or> i = 2 \<or> i = 3 \<or> i = 4 \<or> i = 5 \<or> i = 6" using assms by arith
  then show ?thesis
    by (auto simp: URL_INTENT_RULES_def mk_rule_def)
qed

text \<open>
  C7. For every URL, \<^verbatim>\<open>classifyUrl\<close> returns the first rule of the table, in table
  order, whose pattern is a substring of the lower-cased path and query; null when no
  rule matches, and null when the URL does not parse. A path that contains \<^verbatim>\<open>/reels\<close>
  (and so \<^verbatim>\<open>/reel\<close>) never resolves to the later rule \<^verbatim>\<open>/reel\<close>: the result is the
  rule \<^verbatim>\<open>/reels\<close> at index 6, or one of the six rules before it when one of those
  matches too. Lower-casing turns the letters A to Z into a to z, character by
  character, and keeps every other character, so that a pattern matches whatever the
  case of the path is: a path that contains \<^verbatim>\<open>/REELS\<close> resolves like one that contains
  \<^verbatim>\<open>/reels\<close>.
\<close>

theorem classify_first_match:
  "(URL p u = None \<longrightarrow> classifyUrl p u = None) \<and>
   (\<forall>x. URL p u = Some x \<longrightarrow> getPath p u = toLowerCase (pathname x @ search x)) \<and>
   ((classifyUrl p u = None) =
      (\<forall>r\<in>set URL_INTENT_RULES. \<not> sublist (match r) (getPath p u))) \<and>
   ((classifyUrl p u = Some r) =
      (\<exists>i<length URL_INTENT_RULES. URL_INTENT_RULES ! i = r \<and> sublist (match r) (getPath p u)
         \<and> (\<forall>j<i. \<not> sublist (match (URL_INTENT_RULES ! j)) (getPath p u)))) \<and>
   (sublist ''/reels'' (getPath p u) \<longrightarrow>
      sublist ''/reel'' (getPath p u) \<and>
      (\<exists>i\<le>6. classifyUrl p u = Some (URL_INTENT_RULES ! i)) \<and>
      (\<forall>r'. classifyUrl p u = Some r' \<longrightarrow> match r' \<noteq> ''/reel'') \<and>
      ((\<forall>j<6. \<not> sublist (match (URL_INTENT_RULES ! j)) (getPath p u)) \<longrightarrow>
         classifyUrl p u = Some (mk_rule ''/reels'' 2 ''social'' ''Social''))) \<and>
   toLowerCase ''ABCDEFGHIJKLMNOPQRSTUVWXYZ'' = ''abcdefghijklmnopqrstuvwxyz'' \<and>
   (\<forall>s. length (toLowerCase s) = length s) \<and>
   (\<forall>s t. toLowerCase (s @ t) = toLowerCase s @ toLowerCase t) \<and>
   (\<forall>s. set s \<inter> set ''ABCDEFGHIJKLMNOPQRSTUVWXYZ'' = {} \<longrightarrow> toLowerCase s = s) \<and>
   (\<forall>x w. URL p u = Some x \<and> sublist w (pathname x @ search x) \<longrightarrow>
      sublist (toLowerCase w) (getPath p u)) \<and>
   (\<forall>x. URL p u = Some x \<and> sublist ''/REELS'' (pathname x @ search x) \<longrightarrow>
      (\<exists>i\<le>6. classifyUrl p u = Some (URL_INTENT_RULES ! i)))"
proof -
  have a: "URL p u = None \<longrightarrow> classifyUrl p u = None"
    by (simp add: classifyUrl_def getPath_unparsed first_match_empty_path)
  have b: "\<forall>x. URL p u = Some x \<longrightarrow> getPath p u = toLowerCase (pathname x @ search x)"
    by (simp add: getPath_def)
  have c: "(classifyUrl p u = None) =
      (\<forall>r\<in>set URL_INTENT_RULES. \<not> sublist (match r) (getPath p u))"
    unfolding classifyUrl_def by (rule first_match_None)
  have d: "(classifyUrl p u = Some r) =
      (\<exists>i<length URL_INTENT_RULES. URL_INTENT_RULES ! i = r \<and> sublist (match r) (getPath p u)
         \<and> (\<forall>j<i. \<not> sublist (match (URL_INTENT_RULES ! j)) (getPath p u)))"
    unfolding classifyUrl_def by (rule first_match_Some)
  have e0: "sublist ''/reel'' (getPath p u) \<and>
      (\<exists>i\<le>6. classifyUrl p u = Some (URL_INTENT_RULES ! i)) \<and>
      (\<forall>r'. classifyUrl p u = Some r' \<longrightarrow> match r' \<noteq> ''/reel'') \<and>
      ((\<forall>j<6. \<not> sublist (match (URL_INTENT_RULES ! j)) (getPath p u)) \<longrightarrow>
         classifyUrl p u = Some (mk_rule ''/reels'' 2 ''social'' ''Social''))"
    if h: "sublist ''/reels'' (getPath p u)"
  proof -
    have m6: "sublist (match (URL_INTENT_RULES ! 6)) (getPath p u)"
      using h by (simp add: nth6 mk_rule_def)
    obtain i where i: "i \<le> 6" "classifyUrl p u = Some (URL_INTENT_RULES ! i)"
      using first_match_prefix_bound[OF m6] unfolding classifyUrl_def
      by (auto simp: length_rules)
    have e3: "\<forall>r'. classifyUrl p u = Some r' \<longrightarrow> match r' \<noteq> ''/reel''"
      using i match_before_reel by auto
    have e4: "classifyUrl p u = Some (mk_rule ''/reels'' 2 ''social'' ''Social'')"
      if none: "\<forall>j<6. \<not> sublist (match (URL_INTENT_RULES ! j)) (getPath p u)"
    proof -
      have "first_match (getPath p u) URL_INTENT_RULES = Some (URL_INTENT_RULES ! 6)"
        unfolding first_match_Some using m6 none
        by (intro exI[of _ 6]) (simp add: length_rules)
      then show ?thesis by (simp add: classifyUrl_def nth6)
    qed
    show ?thesis using reels_has_reel[OF h] i e3 e4 by blast
  qed
  have e: "sublist ''/reels'' (getPath p u) \<longrightarrow>
      sublist ''/reel'' (getPath p u) \<and>
      (\<exists>i\<le>6. classifyUrl p u = Some (URL_INTENT_RULES ! i)) \<and>
      (\<forall>r'. classifyUrl p u = Some r' \<longrightarrow> match r' \<noteq> ''/reel'') \<and>
      ((\<forall>j<6. \<not> sublist (match (URL_INTENT_RULES ! j)) (getPath p u)) \<longrightarrow>
         classifyUrl p u = Some (mk_rule ''/reels'' 2 ''social'' ''Social''))"
    using e0 by blast
  have f: "toLowerCase ''ABCDEFGHIJKLMNOPQRSTUVWXYZ'' = ''abcdefghijklmnopqrstuvwxyz''"
    by (rule lower_alphabet)
  have g: "\<forall>s. length (toLowerCase s) = length s"
    by (simp add: length_toLowerCase)
  have h: "\<forall>s t. toLowerCase (s @ t) = toLowerCase s @ toLowerCase t"
    by (simp add: toLowerCase_append)
  have i: "\<forall>s. set s \<inter> set ''ABCDEFGHIJKLMNOPQRSTUVWXYZ'' = {} \<longrightarrow> toLowerCase s = s"
    using lower_keeps_other by blast
  have j: "\<forall>x w. URL p u = Some x \<and> sublist w (pathname x @ search x) \<longrightarrow>
      sublist (toLowerCase w) (getPath p u)"
  proof (intro allI impI)
    fix x w assume "URL p u = Some x \<and> sublist w (pathname x @ search x)"
    then show "sublist (toLowerCase w) (getPath p u)"
      using sublist_toLowerCase[of w "pathname x @ search x"] by (simp add: getPath_def)
  qed
  have lr: "toLowerCase ''/REELS'' = ''/reels''" by code_simp
  have k: "\<forall>x. URL p u = Some x \<and> sublist ''/REELS'' (pathname x @ search x) \<longrightarrow>
      (\<exists>i\<le>6. classifyUrl p u = Some (URL_INTENT_RULES ! i))"
  proof (intro allI impI)
    fix x assume ax: "URL p u = Some x \<and> sublist ''/REELS'' (pathname x @ search x)"
    then have "sublist (toLowerCase ''/REELS'') (getPath p u)" using j by blast
    then have "sublist ''/reels'' (getPath p u)" unfolding lr .
    then show "\<exists>i\<le>6. classifyUrl p u = Some (URL_INTENT_RULES ! i)" using e by blast
  qed
  show ?thesis
    by (rule conjI[OF a conjI[OF b conjI[OF c conjI[OF d conjI[OF e conjI[OF f conjI[OF g
          conjI[OF h conjI[OF i conjI[OF j k]]]]]]]]]])
qed

theorem classify_first_match_witness:
  "URL example_platform ''no url'' = None \<and> classifyUrl example_platform ''no url'' = None \<and>
   sublist ''/reels'' (getPath example_platform ''https://www.instagram.com/reels/abc'') \<and>
   classifyUrl example_platform ''https://www.instagram.com/reels/abc''
     = Some (mk_rule ''/reels'' 2 ''social'' ''Social'') \<and>
   getPath example_platform ''https://www.instagram.com/REELS/Abc?Q=1'' = ''/reels/abc?q=1'' \<and>
   classifyUrl example_platform ''https://www.instagram.com/REELS/Abc?Q=1''
     = Some (mk_rule ''/reels'' 2 ''social'' ''Social'')"
proof -
  have h1: "URL example_platform ''no url'' = None"
    by (simp add: example_platform_def example_URL_def)
  have p: "getPath example_platform ''https://www.instagram.com/reels/abc'' = ''/reels/abc''"
    by (simp add: getPath_def example_platform_def example_URL_def toLowerCase_def lower_char_def)
  have h2: "sublist ''/reels'' (getPath example_platform ''https://www.instagram.com/reels/abc'')"
    unfolding p by (simp add: sublist_code prefix_code)
  have h3: "\<forall>j<6. \<not> sublist (match (URL_INTENT_RULES ! j))
                (getPath example_platform ''https://www.instagram.com/reels/abc'')"
  proof (intro allI impI)
    fix j :: nat assume "j < 6"
    then have "j = 0 \<or> j = 1 \<or> j = 2 \<or> j = 3 \<or> j = 4 \<or> j = 5" by arith
    then show "\<not> sublist (match (URL_INTENT_RULES ! j))
                (getPath example_platform ''https://www.instagram.com/reels/abc'')"
      unfolding p by (auto simp: URL_INTENT_RULES_def mk_rule_def sublist_code prefix_code)
  qed
  have ux: "URL example_platform ''https://www.instagram.com/REELS/Abc?Q=1''
              = Some \<lparr>hostname = ''www.instagram.com'', pathname = ''/REELS/Abc'', search = ''?Q=1''\<rparr>"
    by (simp add: example_platform_def example_URL_def)
  have q: "getPath example_platform ''https://www.instagram.com/REELS/Abc?Q=1'' = ''/reels/abc?q=1''"
    using classify_first_match [of example_platform "''https://www.instagram.com/REELS/Abc?Q=1''"]
      ux lower_example by simp
  have h4: "sublist ''/reels'' (getPath example_platform ''https://www.instagram.com/REELS/Abc?Q=1'')"
    unfolding q by (simp add: sublist_code prefix_code)
  have h5: "\<forall>j<6. \<not> sublist (match (URL_INTENT_RULES ! j))
                (getPath example_platform ''https://www.instagram.com/REELS/Abc?Q=1'')"
  proof (intro allI impI)
    fix j :: nat assume "j < 6"
    then have "j = 0 \<or> j = 1 \<or> j = 2 \<or> j = 3 \<or> j = 4 \<or> j = 5" by arith
    then show "\<not> sublist (match (URL_INTENT_RULES ! j))
                (getPath example_platform ''https://www.instagram.com/REELS/Abc?Q=1'')"
      unfolding q by (auto simp: URL_INTENT_RULES_def mk_rule_def sublist_code prefix_code)
  qed
  have r1: "classifyUrl example_platform ''no url'' = None"
    using h1 classify_first_match [of example_platform "''no url''"] by simp
  have r2: "classifyUrl example_platform ''https://www.instagram.com/reels/abc''
     = Some (mk_rule ''/reels'' 2 ''social'' ''Social'')"
    using h2 h3 classify_first_match [of example_platform "''https://www.instagram.com/reels/abc''"]
    by simp
  have r3: "classifyUrl example_platform ''https://www.instagram.com/REELS/Abc?Q=1''
     = Some (mk_rule ''/reels'' 2 ''social'' ''Social'')"
    using h4 h5
      classify_first_match [of example_platform "''https://www.instagram.com/REELS/Abc?Q=1''"]
    by simp
  show ?thesis using h1 r1 h2 r2 q r3 by simp
qed

lemma getRootDomain_ignore_root:
  "URL p u = Some x \<Longrightarrow> hostname x \<noteq> [] \<Longrightarrow> getRootDomain p u = Some (ignore_root (hostname x))"
  using root_domains_agree[of "hostname x"]
  by (auto simp add: getRootDomain_def getDomain_def Let_def split: if_splits)

lemma prototype_bumps:
  "foldl bump Map.empty [''constructor'', ''constructor'']
     = [''constructor'' \<mapsto> Text ''function Object() { [native code] }11'']"
  "foldl bump Map.empty [''toString'']
     = [''toString'' \<mapsto> Text ''function toString() { [native code] }1'']"
  "foldl bump Map.empty [''__proto__''] = Map.empty"
  "foldl bump [''a.com'' \<mapsto> Text []] [''a.com''] = [''a.com'' \<mapsto> Count 1]"
proof -
  have r: "ignore_root ''constructor'' = ''constructor''" "ignore_root ''toString'' = ''toString''"
    "ignore_root ''__proto__'' = ''__proto__''" "ignore_root ''a.com'' = ''a.com''"
    using ignore_root_plain[of "''constructor''"] ignore_root_plain[of "''toString''"]
      ignore_root_plain[of "''__proto__''"] ignore_root_two[of "''a''" "''com''"]
    by simp_all
  show "foldl bump Map.empty [''constructor'', ''constructor'']
     = [''constructor'' \<mapsto> Text ''function Object() { [native code] }11'']"
    by (simp add: bump_def r Let_def plus_one_def assign_def object_prototype_def native_text_def)
  show "foldl bump Map.empty [''toString'']
     = [''toString'' \<mapsto> Text ''function toString() { [native code] }1'']"
    by (simp add: bump_def r Let_def plus_one_def assign_def object_prototype_def native_text_def)
  show "foldl bump Map.empty [''__proto__''] = Map.empty"
    by (simp add: bump_def r Let_def plus_one_def assign_def object_prototype_def)
  show "foldl bump [''a.com'' \<mapsto> Text []] [''a.com''] = [''a.com'' \<mapsto> Count 1]"
    by (simp add: bump_def r Let_def plus_one_def assign_def)
qed

text \<open>
  C9. The handler of IGNORE\_SUGGESTION keys each listed domain by its root domain: the
  last two dot-separated labels, the domain itself when it has at most two, the root
  domain that the scorer reads. For every map of numeric counters and every domain list
  none of whose root domains is the name of a member of \<^verbatim>\<open>Object.prototype\<close>, it adds to
  each such counter 1 per occurrence, a missing counter counting as 0, and leaves every
  other counter as it was; with the list \<^verbatim>\<open>["a.com", "b.com"]\<close> only the counters of
  \<^verbatim>\<open>a.com\<close> and \<^verbatim>\<open>b.com\<close> change, each by 1. On the domain \<^verbatim>\<open>constructor\<close> the read
  \<^verbatim>\<open>counts[root]\<close> finds the inherited function instead of a missing counter, and what is
  stored is its text with the digit 1 appended, once more for every further occurrence;
  likewise \<^verbatim>\<open>toString\<close>. On \<^verbatim>\<open>__proto__\<close> nothing is stored.
\<close>

theorem ignore_increments_roots:
  "((\<forall>d\<in>set ds. object_prototype (ignore_root d) = None) \<longrightarrow>
      (\<exists>counts'.
         domainIgnoreCounts
           (ignore_suggestion
              \<lparr>ignoredSessions = ignored, domainIgnoreCounts = Some (number_store counts)\<rparr>
              \<lparr>msg_id = i, msg_domains = Some ds\<rparr>) = Some counts' \<and>
         (\<forall>k. counts' k =
            (if k \<in> ignore_root ` set ds
             then Some (Count (old_count counts k
                                + int (length (filter (\<lambda>d. ignore_root d = k) ds))))
             else map_option Count (counts k))))) \<and>
   (\<exists>counts'.
      domainIgnoreCounts
        (ignore_suggestion
           \<lparr>ignoredSessions = ignored, domainIgnoreCounts = Some (number_store counts)\<rparr>
           \<lparr>msg_id = i, msg_domains = Some [''a.com'', ''b.com'']\<rparr>) = Some counts' \<and>
      counts' ''a.com'' = Some (Count (old_count counts ''a.com'' + 1)) \<and>
      counts' ''b.com'' = Some (Count (old_count counts ''b.com'' + 1)) \<and>
      (\<forall>k. k \<noteq> ''a.com'' \<and> k \<noteq> ''b.com'' \<longrightarrow> counts' k = map_option Count (counts k))) \<and>
   (\<forall>pre a b. CHR ''.'' \<notin> set a \<and> CHR ''.'' \<notin> set b \<longrightarrow>
      ignore_root a = a \<and>
      ignore_root (a @ ''.'' @ b) = a @ ''.'' @ b \<and>
      ignore_root (pre @ ''.'' @ a @ ''.'' @ b) = a @ ''.'' @ b) \<and>
   (\<forall>p u x. URL p u = Some x \<and> hostname x \<noteq> [] \<longrightarrow>
      getRootDomain p u = Some (ignore_root (hostname x))) \<and>
   domainIgnoreCounts
     (ignore_suggestion \<lparr>ignoredSessions = ignored, domainIgnoreCounts = Some Map.empty\<rparr>
        \<lparr>msg_id = i, msg_domains = Some [''constructor'']\<rparr>)
     = Some [''constructor'' \<mapsto> Text ''function Object() { [native code] }1''] \<and>
   domainIgnoreCounts
     (ignore_suggestion \<lparr>ignoredSessions = ignored, domainIgnoreCounts = Some Map.empty\<rparr>
        \<lparr>msg_id = i, msg_domains = Some [''constructor'', ''constructor'']\<rparr>)
     = Some [''constructor'' \<mapsto> Text ''function Object() { [native code] }11''] \<and>
   domainIgnoreCounts
     (ignore_suggestion \<lparr>ignoredSessions = ignored, domainIgnoreCounts = Some Map.empty\<rparr>
        \<lparr>msg_id = i, msg_domains = Some [''toString'']\<rparr>)
     = Some [''toString'' \<mapsto> Text ''function toString() { [native code] }1''] \<and>
   domainIgnoreCounts
     (ignore_suggestion \<lparr>ignoredSessions = ignored, domainIgnoreCounts = Some Map.empty\<rparr>
        \<lparr>msg_id = i, msg_domains = Some [''__proto__'']\<rparr>)
     = Some Map.empty \<and>
   domainIgnoreCounts
     (ignore_suggestion
        \<lparr>ignoredSessions = ignored, domainIgnoreCounts = Some [''a.com'' \<mapsto> Text []]\<rparr>
        \<lparr>msg_id = i, msg_domains = Some [''a.com'']\<rparr>)
     = Some [''a.com'' \<mapsto> Count 1]"
proof -
  have run: "domainIgnoreCounts
           (ignore_suggestion \<lparr>ignoredSessions = ignored, domainIgnoreCounts = Some c\<rparr>
              \<lparr>msg_id = i, msg_domains = Some l\<rparr>) = Some (foldl bump c l)" for c l
    by (simp add: ignore_suggestion_def Let_def)
  have a: "foldl bump (number_store counts) l k =
            (if k \<in> ignore_root ` set l
             then Some (Count (old_count counts k
                                + int (length (filter (\<lambda>d. ignore_root d = k) l))))
             else map_option Count (counts k))"
    if "\<forall>d\<in>set l. object_prototype (ignore_root d) = None" for l k
  proof -
    have la: "list_all (\<lambda>d. object_prototype (ignore_root d) = None) l"
      using that by (simp add: list_all_iff)
    show ?thesis
      unfolding foldl_bump_number[OF la]
      by (auto simp: filter_empty_conv number_store_def)
  qed
  have A: "(\<forall>d\<in>set ds. object_prototype (ignore_root d) = None) \<longrightarrow>
      (\<exists>counts'.
         domainIgnoreCounts
           (ignore_suggestion
              \<lparr>ignoredSessions = ignored, domainIgnoreCounts = Some (number_store counts)\<rparr>
              \<lparr>msg_id = i, msg_domains = Some ds\<rparr>) = Some counts' \<and>
         (\<forall>k. counts' k =
            (if k \<in> ignore_root ` set ds
             then Some (Count (old_count counts k
                                + int (length (filter (\<lambda>d. ignore_root d = k) ds))))
             else map_option Count (counts k))))"
    unfolding run using a[of ds] by simp
  have r: "ignore_root ''a.com'' = ''a.com''" "ignore_root ''b.com'' = ''b.com''"
    using ignore_root_two[of "''a''" "''com''"] ignore_root_two[of "''b''" "''com''"] by simp_all
  have np: "\<forall>d\<in>set [''a.com'', ''b.com'']. object_prototype (ignore_root d) = None"
    by (simp add: r object_prototype_def)
  have b: "foldl bump (number_store counts) [''a.com'', ''b.com''] ''a.com''
             = Some (Count (old_count counts ''a.com'' + 1)) \<and>
           foldl bump (number_store counts) [''a.com'', ''b.com''] ''b.com''
             = Some (Count (old_count counts ''b.com'' + 1)) \<and>
           (\<forall>k. k \<noteq> ''a.com'' \<and> k \<noteq> ''b.com'' \<longrightarrow>
              foldl bump (number_store counts) [''a.com'', ''b.com''] k = map_option Count (counts k))"
    unfolding a[OF np] using r by auto
  have B: "\<exists>counts'.
      domainIgnoreCounts
        (ignore_suggestion
           \<lparr>ignoredSessions = ignored, domainIgnoreCounts = Some (number_store counts)\<rparr>
           \<lparr>msg_id = i, msg_domains = Some [''a.com'', ''b.com'']\<rparr>) = Some counts' \<and>
      counts' ''a.com'' = Some (Count (old_count counts ''a.com'' + 1)) \<and>
      counts' ''b.com'' = Some (Count (old_count counts ''b.com'' + 1)) \<and>
      (\<forall>k. k \<noteq> ''a.com'' \<and> k \<noteq> ''b.com'' \<longrightarrow> counts' k = map_option Count (counts k))"
    unfolding run using b by simp
  have C: "\<forall>pre a b. CHR ''.'' \<notin> set a \<and> CHR ''.'' \<notin> set b \<longrightarrow>
      ignore_root a = a \<and>
      ignore_root (a @ ''.'' @ b) = a @ ''.'' @ b \<and>
      ignore_root (pre @ ''.'' @ a @ ''.'' @ b) = a @ ''.'' @ b"
    using ignore_root_plain ignore_root_two ignore_root_more by simp
  have D: "\<forall>p u x. URL p u = Some x \<and> hostname x \<noteq> [] \<longrightarrow>
      getRootDomain p u = Some (ignore_root (hostname x))"
    using getRootDomain_ignore_root by blast
  have E: "domainIgnoreCounts
     (ignore_suggestion \<lparr>ignoredSessions = ignored, domainIgnoreCounts = Some Map.empty\<rparr>
        \<lparr>msg_id = i, msg_domains = Some [''constructor'']\<rparr>)
     = Some [''constructor'' \<mapsto> Text ''function Object() { [native code] }1'']"
    unfolding run constructor_bump by (rule refl)
  have F: "domainIgnoreCounts
     (ignore_suggestion \<lparr>ignoredSessions = ignored, domainIgnoreCounts = Some Map.empty\<rparr>
        \<lparr>msg_id = i, msg_domains = Some [''constructor'', ''constructor'']\<rparr>)
     = Some [''constructor'' \<mapsto> Text ''function Object() { [native code] }11'']"
    unfolding run prototype_bumps by (rule refl)
  have G: "domainIgnoreCounts
     (ignore_suggestion \<lparr>ignoredSessions = ignored, domainIgnoreCounts = Some Map.empty\<rparr>
        \<lparr>msg_id = i, msg_domains = Some [''toString'']\<rparr>)
     = Some [''toString'' \<mapsto> Text ''function toString() { [native code] }1'']"
    unfolding run prototype_bumps by (rule refl)
  have H: "domainIgnoreCounts
     (ignore_suggestion \<lparr>ignoredSessions = ignored, domainIgnoreCounts = Some Map.empty\<rparr>
        \<lparr>msg_id = i, msg_domains = Some [''__proto__'']\<rparr>)
     = Some Map.empty"
    unfolding run prototype_bumps by (rule refl)
  have I: "domainIgnoreCounts
     (ignore_suggestion
        \<lparr>ignoredSessions = ignored, domainIgnoreCounts = Some [''a.com'' \<mapsto> Text []]\<rparr>
        \<lparr>msg_id = i, msg_domains = Some [''a.com'']\<rparr>)
     = Some [''a.com'' \<mapsto> Count 1]"
    unfolding run prototype_bumps by (rule refl)
  show ?thesis
    by (rule conjI[OF A conjI[OF B conjI[OF C conjI[OF D conjI[OF E conjI[OF F conjI[OF G
          conjI[OF H I]]]]]]]])
qed

theorem ignore_increments_roots_witness:
  "domainIgnoreCounts
     (ignore_suggestion
        \<lparr>ignoredSessions = None, domainIgnoreCounts = Some (number_store [''a.com'' \<mapsto> 2])\<rparr>
        \<lparr>msg_id = Session_id 1, msg_domains = Some [''www.a.com'', ''b.com'', ''mail.a.com'']\<rparr>)
   = Some [''a.com'' \<mapsto> Count 4, ''b.com'' \<mapsto> Count 1]"
proof -
  have r: "ignore_root ''www.a.com'' = ''a.com''" "ignore_root ''b.com'' = ''b.com''"
    "ignore_root ''mail.a.com'' = ''a.com''"
    using ignore_root_more[of "''a''" "''com''" "''www''"] ignore_root_two[of "''b''" "''com''"]
      ignore_root_more[of "''a''" "''com''" "''mail''"]
    by simp_all
  have h: "\<forall>d\<in>set [''www.a.com'', ''b.com'', ''mail.a.com''].
             object_prototype (ignore_root d) = None"
    by (simp add: r object_prototype_def)
  obtain c where c: "domainIgnoreCounts
     (ignore_suggestion
        \<lparr>ignoredSessions = None, domainIgnoreCounts = Some (number_store [''a.com'' \<mapsto> 2])\<rparr>
        \<lparr>msg_id = Session_id 1, msg_domains = Some [''www.a.com'', ''b.com'', ''mail.a.com'']\<rparr>)
      = Some c"
    and v: "\<forall>k. c k =
            (if k \<in> ignore_root ` set [''www.a.com'', ''b.com'', ''mail.a.com'']
             then Some (Count (old_count [''a.com'' \<mapsto> 2] k
                   + int (length (filter (\<lambda>d. ignore_root d = k)
                                    [''www.a.com'', ''b.com'', ''mail.a.com'']))))
             else map_option Count ([''a.com'' \<mapsto> 2] k))"
    using h ignore_increments_roots [of "[''www.a.com'', ''b.com'', ''mail.a.com'']" None
        "[''a.com'' \<mapsto> 2]" "Session_id 1"]
    by blast
  have "c = [''a.com'' \<mapsto> Count 4, ''b.com'' \<mapsto> Count 1]"
  proof
    fix k show "c k = [''a.com'' \<mapsto> Count 4, ''b.com'' \<mapsto> Count 1] k"
      using v by (simp add: r old_count_def)
  qed
  then show ?thesis using c by simp
qed

lemma keep_item_Some:
  "(keep_item i = Some h) =
     (\<exists>u t. raw_url i = Some u \<and> raw_lastVisitTime i = Some t \<and> u \<noteq> [] \<and> t \<noteq> 0
        \<and> h = \<lparr>url = u, lastVisitTime = t\<rparr>)"
  by (auto simp: keep_item_def split: option.splits)

lemma segment_sorted_list:
  "concat (segment items) = sort_key lastVisitTime (List.map_filter keep_item items)"
proof (cases "items = []")
  case True
  then show ?thesis by (simp add: segment_def List.map_filter_simps)
next
  case False
  then show ?thesis
    by (simp add: segment_def concat_split_sessions split: list.splits)
qed

lemma segment_inner:
  "list_all (\<lambda>s. s \<noteq> [] \<and> successively close_gap s) (segment items)"
proof (cases "sort_key lastVisitTime (List.map_filter keep_item items)")
  case Nil
  then show ?thesis by (simp add: segment_def)
next
  case (Cons x xs)
  have "list_all (\<lambda>s. s \<noteq> [] \<and> successively close_gap s) (split_sessions [] [x] x xs)"
    by (rule split_sessions_inner) simp_all
  then show ?thesis using Cons by (simp add: segment_def)
qed

lemma segment_cross: "successively wide_gap (segment items)"
proof (cases "sort_key lastVisitTime (List.map_filter keep_item items)")
  case Nil
  then show ?thesis by (simp add: segment_def)
next
  case (Cons x xs)
  have "successively wide_gap (split_sessions [] [x] x xs)"
    by (rule split_sessions_cross) simp_all
  then show ?thesis using Cons by (simp add: segment_def)
qed

text \<open>
  C3, as the code has it. For every input list, segmentation keeps exactly the items
  whose URL is present and not the empty string and whose time is present and not 0,
  orders them ascending by time, and cuts that sequence into non-empty sessions: the
  sessions together hold the kept items, each once; inside a session every gap between
  neighbours is at most 1,800,000 ms; from the last item of a session to the first item
  of the next the gap is more than 1,800,000 ms.
\<close>

theorem segment_partition:
  "concat (segment items) = sort_key lastVisitTime (List.map_filter keep_item items) \<and>
   mset (concat (segment items)) = mset (List.map_filter keep_item items) \<and>
   sorted (map lastVisitTime (concat (segment items))) \<and>
   (\<forall>s\<in>set (segment items). s \<noteq> [] \<and> successively close_gap s) \<and>
   successively wide_gap (segment items) \<and>
   (\<forall>i h. (keep_item i = Some h) =
      (\<exists>u t. raw_url i = Some u \<and> raw_lastVisitTime i = Some t \<and> u \<noteq> [] \<and> t \<noteq> 0
         \<and> h = \<lparr>url = u, lastVisitTime = t\<rparr>))"
proof -
  have "\<forall>s\<in>set (segment items). s \<noteq> [] \<and> successively close_gap s"
    using segment_inner[of items] by (simp add: list_all_iff)
  then show ?thesis
    using segment_cross keep_item_Some by (simp add: segment_sorted_list)
qed

lemma segment_example: "segment example_items = [example_session]"
  by (simp add: segment_def example_items_def example_session_def keep_item_def
      List.map_filter_simps SESSION_GAP_MS_def)

theorem segment_partition_witness:
  "segment example_items = [example_session] \<and> example_session \<noteq> [] \<and>
   successively close_gap example_session"
  using segment_partition [of example_items] by (simp add: segment_example)

text \<open>
  C3 as stated fails on an item that has a URL and the time 0: it has both fields, and it
  is in no session, since the filter tests the truthiness of the time.
\<close>

theorem segment_partition_counterexample:
  "has_url_and_time epoch_item \<and> segment [epoch_item] = []"
  by (simp add: has_url_and_time_def epoch_item_def segment_def keep_item_def
      List.map_filter_simps)

lemma scoreSession_fields:
  assumes "session \<noteq> []"
  shows "\<exists>r. scoreSession p session dp ic = Inr r \<and>
           urlIntent (breakdown r) = urlIntentScore (foldl (score_item p dp ic) tally0 session) \<and>
           workSignals (breakdown r) = workSignalScore (foldl (score_item p dp ic) tally0 session) \<and>
           categories r
             = sort_key (\<lambda>e. - hit_count e) (categoryHits (foldl (score_item p dp ic) tally0 session)) \<and>
           domains r = domainSet (foldl (score_item p dp ic) tally0 session)"
proof -
  obtain x xs where s: "session = x # xs" using assms by (cases session) auto
  obtain k where k: "rapidScore_of session = Inr k" using rapidScore_of_range by blast
  show ?thesis
    unfolding scoreSession_def k s[symmetric]
    by (simp add: s item_at_first Let_def)
qed

lemma personal_ignored_fold:
  assumes "list_all (\<lambda>item.
             lookup_pref dp (getDomain p (url item)) (getRootDomain p (url item)) = Some ''personal''
             \<and> lookup_ignore ic (getRootDomain p (url item)) \<ge> 3) session"
  shows "urlIntentScore (foldl (score_item p dp ic) acc session)
           = urlIntentScore acc + int (length session) \<and>
         workSignalScore (foldl (score_item p dp ic) acc session)
           = workSignalScore acc + 2 * int (length session) \<and>
         categoryHits (foldl (score_item p dp ic) acc session) = categoryHits acc"
  using assms
proof (induction session arbitrary: acc)
  case Nil
  then show ?case by simp
next
  case (Cons item rest)
  have step: "score_item p dp ic acc item =
      acc\<lparr>domainSet := add_domain (getDomain p (url item)) (domainSet acc),
          urlIntentScore := urlIntentScore acc + 1,
          workSignalScore := workSignalScore acc + 2\<rparr>"
    using Cons.prems by (simp add: score_item_def Let_def AUTO_WORK_IGNORE_COUNT_def)
  have rest: "list_all (\<lambda>item.
             lookup_pref dp (getDomain p (url item)) (getRootDomain p (url item)) = Some ''personal''
             \<and> lookup_ignore ic (getRootDomain p (url item)) \<ge> 3) rest"
    using Cons.prems by simp
  show ?case
    using Cons.IH[OF rest, of "score_item p dp ic acc item"]
    by (simp add: step)
qed

text \<open>
  C1, as the code has it. An item whose preference (the entry of its exact domain, else
  of its root domain) is \<^verbatim>\<open>personal\<close> adds 1 to \<^verbatim>\<open>urlIntentScore\<close> and then goes
  through the adaptive-memory check like an item without a preference: with an ignore
  count of 3 or more it adds 2 to \<^verbatim>\<open>workSignalScore\<close> and is not classified; only
  with a smaller count does it continue to rule classification. The adaptive-memory tier
  applies to every item whose preference is not \<^verbatim>\<open>work\<close>. So a session made of
  \<^verbatim>\<open>personal\<close> items with ignore counts of 3 or more scores 1 of URL intent and 2 of
  work signal per item and records no category.
\<close>

theorem preference_tiers:
  "(lookup_pref domainPrefs (getDomain p (url item)) (getRootDomain p (url item)) = Some ''personal''
      \<longrightarrow> score_item p domainPrefs ignoreCounts acc item =
        (if lookup_ignore ignoreCounts (getRootDomain p (url item)) \<ge> 3
         then acc\<lparr>domainSet := add_domain (getDomain p (url item)) (domainSet acc),
                  urlIntentScore := urlIntentScore acc + 1,
                  workSignalScore := workSignalScore acc + 2\<rparr>
         else classify_step p item
                (acc\<lparr>domainSet := add_domain (getDomain p (url item)) (domainSet acc),
                     urlIntentScore := urlIntentScore acc + 1\<rparr>))) \<and>
   (lookup_pref domainPrefs (getDomain p (url item)) (getRootDomain p (url item)) \<noteq> Some ''personal''
    \<and> lookup_pref domainPrefs (getDomain p (url item)) (getRootDomain p (url item)) \<noteq> Some ''work''
      \<longrightarrow> score_item p domainPrefs ignoreCounts acc item =
        (if lookup_ignore ignoreCounts (getRootDomain p (url item)) \<ge> 3
         then acc\<lparr>domainSet := add_domain (getDomain p (url item)) (domainSet acc),
                  workSignalScore := workSignalScore acc + 2\<rparr>
         else classify_step p item
                (acc\<lparr>domainSet := add_domain (getDomain p (url item)) (domainSet acc)\<rparr>))) \<and>
   (session \<noteq> [] \<and>
    (\<forall>i\<in>set session.
        lookup_pref domainPrefs (getDomain p (url i)) (getRootDomain p (url i)) = Some ''personal''
        \<and> lookup_ignore ignoreCounts (getRootDomain p (url i)) \<ge> 3)
      \<longrightarrow> (\<exists>r. scoreSession p session domainPrefs ignoreCounts = Inr r \<and>
             urlIntent (breakdown r) = int (length session) \<and>
             workSignals (breakdown r) = 2 * int (length session) \<and>
             categories r = []))"
proof -
  have a: "lookup_pref domainPrefs (getDomain p (url item)) (getRootDomain p (url item)) = Some ''personal''
      \<longrightarrow> score_item p domainPrefs ignoreCounts acc item =
        (if lookup_ignore ignoreCounts (getRootDomain p (url item)) \<ge> 3
         then acc\<lparr>domainSet := add_domain (getDomain p (url item)) (domainSet acc),
                  urlIntentScore := urlIntentScore acc + 1,
                  workSignalScore := workSignalScore acc + 2\<rparr>
         else classify_step p item
                (acc\<lparr>domainSet := add_domain (getDomain p (url item)) (domainSet acc),
                     urlIntentScore := urlIntentScore acc + 1\<rparr>))"
    by (simp add: score_item_def Let_def AUTO_WORK_IGNORE_COUNT_def)
  have b: "lookup_pref domainPrefs (getDomain p (url item)) (getRootDomain p (url item)) \<noteq> Some ''personal''
    \<and> lookup_pref domainPrefs (getDomain p (url item)) (getRootDomain p (url item)) \<noteq> Some ''work''
      \<longrightarrow> score_item p domainPrefs ignoreCounts acc item =
        (if lookup_ignore ignoreCounts (getRootDomain p (url item)) \<ge> 3
         then acc\<lparr>domainSet := add_domain (getDomain p (url item)) (domainSet acc),
                  workSignalScore := workSignalScore acc + 2\<rparr>
         else classify_step p item
                (acc\<lparr>domainSet := add_domain (getDomain p (url item)) (domainSet acc)\<rparr>))"
    by (simp add: score_item_def Let_def AUTO_WORK_IGNORE_COUNT_def)
  have c: "\<exists>r. scoreSession p session domainPrefs ignoreCounts = Inr r \<and>
             urlIntent (breakdown r) = int (length session) \<and>
             workSignals (breakdown r) = 2 * int (length session) \<and>
             categories r = []"
    if ne: "session \<noteq> []" and all: "\<forall>i\<in>set session.
        lookup_pref domainPrefs (getDomain p (url i)) (getRootDomain p (url i)) = Some ''personal''
        \<and> lookup_ignore ignoreCounts (getRootDomain p (url i)) \<ge> 3"
  proof -
    have la: "list_all (\<lambda>i.
        lookup_pref domainPrefs (getDomain p (url i)) (getRootDomain p (url i)) = Some ''personal''
        \<and> lookup_ignore ignoreCounts (getRootDomain p (url i)) \<ge> 3) session"
      using all by (simp add: list_all_iff)
    obtain r where r: "scoreSession p session domainPrefs ignoreCounts = Inr r"
      and f: "urlIntent (breakdown r)
                = urlIntentScore (foldl (score_item p domainPrefs ignoreCounts) tally0 session)"
         "workSignals (breakdown r)
                = workSignalScore (foldl (score_item p domainPrefs ignoreCounts) tally0 session)"
         "categories r = sort_key (\<lambda>e. - hit_count e)
                (categoryHits (foldl (score_item p domainPrefs ignoreCounts) tally0 session))"
      using scoreSession_fields[OF ne] by blast
    show ?thesis
      using r f personal_ignored_fold[OF la, of tally0] by (simp add: tally0_def)
  qed
  show ?thesis using a b c by blast
qed

theorem preference_tiers_witness:
  "lookup_pref [''youtube.com'' \<mapsto> ''personal''] (getDomain example_platform (url watch_item))
     (getRootDomain example_platform (url watch_item)) = Some ''personal'' \<and>
   score_item example_platform [''youtube.com'' \<mapsto> ''personal''] Map.empty tally0 watch_item =
     classify_step example_platform watch_item
       (tally0\<lparr>domainSet := [''youtube.com''], urlIntentScore := 1\<rparr>)"
proof -
  have d: "getDomain example_platform (url watch_item) = Some ''youtube.com''"
    "getRootDomain example_platform (url watch_item) = Some ''youtube.com''"
    by (simp_all add: getRootDomain_def getDomain_def example_platform_def example_URL_def
        watch_item_def Let_def)
  have h: "lookup_pref [''youtube.com'' \<mapsto> ''personal''] (getDomain example_platform (url watch_item))
     (getRootDomain example_platform (url watch_item)) = Some ''personal''"
    unfolding d by (simp add: lookup_pref_def prop_key_def)
  have i: "lookup_ignore Map.empty (getRootDomain example_platform (url watch_item)) = 0"
    by (simp add: lookup_ignore_def)
  show ?thesis
    using h i preference_tiers [of "[''youtube.com'' \<mapsto> ''personal'']" example_platform
        watch_item Map.empty tally0]
    by (simp add: d add_domain_def tally0_def)
qed

text \<open>
  C1 as stated fails on a \<^verbatim>\<open>personal\<close> domain that was ignored three times: the visit
  of \<^verbatim>\<open>/watch\<close> gets the boost of 1 and the work signal of 2 and no category, where
  rule classification after the boost would have given \<^verbatim>\<open>urlIntentScore\<close> 3.
\<close>

theorem preference_tiers_counterexample:
  "lookup_pref [''youtube.com'' \<mapsto> ''personal''] (getDomain example_platform (url watch_item))
     (getRootDomain example_platform (url watch_item)) = Some ''personal'' \<and>
   score_item example_platform [''youtube.com'' \<mapsto> ''personal''] [''youtube.com'' \<mapsto> 3]
       tally0 watch_item
     = \<lparr>urlIntentScore = 1, workSignalScore = 2, categoryHits = [], domainSet = [''youtube.com'']\<rparr> \<and>
   urlIntentScore (classify_step example_platform watch_item
       (tally0\<lparr>domainSet := [''youtube.com''], urlIntentScore := 1\<rparr>)) = 3"
proof -
  have d: "getDomain example_platform (url watch_item) = Some ''youtube.com''"
    "getRootDomain example_platform (url watch_item) = Some ''youtube.com''"
    by (simp_all add: getRootDomain_def getDomain_def example_platform_def example_URL_def
        watch_item_def Let_def)
  have h: "lookup_pref [''youtube.com'' \<mapsto> ''personal''] (Some ''youtube.com'')
     (Some ''youtube.com'') = Some ''personal''"
    by (simp add: lookup_pref_def prop_key_def)
  have i: "lookup_ignore [''youtube.com'' \<mapsto> 3] (Some ''youtube.com'') = 3"
    by (simp add: lookup_ignore_def prop_key_def)
  have s: "score_item example_platform [''youtube.com'' \<mapsto> ''personal''] [''youtube.com'' \<mapsto> 3]
       tally0 watch_item
     = \<lparr>urlIntentScore = 1, workSignalScore = 2, categoryHits = [], domainSet = [''youtube.com'']\<rparr>"
    by (simp add: score_item_def d h i Let_def AUTO_WORK_IGNORE_COUNT_def add_domain_def
        tally0_def)
  have pth: "getPath example_platform (url watch_item) = ''/watch?x''"
    by (simp add: getPath_def example_platform_def example_URL_def watch_item_def
        toLowerCase_def lower_char_def)
  have c: "classifyUrl example_platform (url watch_item) = Some (mk_rule ''/watch'' 2 ''entertainment'' ''Video'')"
    unfolding classifyUrl_def pth by (simp add: URL_INTENT_RULES_def mk_rule_def)
  have k: "urlIntentScore (classify_step example_platform watch_item
       (tally0\<lparr>domainSet := [''youtube.com''], urlIntentScore := 1\<rparr>)) = 3"
    unfolding classify_step_def c by (simp add: mk_rule_def tally0_def)
  show ?thesis using h s k unfolding d by simp
qed

lemma unparsable_url:
  assumes "URL p u = None"
  shows "getDomain p u = None \<and> getRootDomain p u = None \<and> getPath p u = [] \<and>
         classifyUrl p u = None"
  using assms
  by (simp add: getDomain_def getRootDomain_def getPath_def classifyUrl_def first_match_empty_path)

lemma unparsable_item:
  assumes "URL p (url item) = None"
  shows "score_item p domainPrefs ignoreCounts acc item =
     (if domainPrefs ''null'' = Some ''work'' then acc\<lparr>workSignalScore := workSignalScore acc + 3\<rparr>
      else if old_count ignoreCounts ''null'' \<ge> 3
      then (if domainPrefs ''null'' = Some ''personal''
            then acc\<lparr>urlIntentScore := urlIntentScore acc + 1,
                     workSignalScore := workSignalScore acc + 2\<rparr>
            else acc\<lparr>workSignalScore := workSignalScore acc + 2\<rparr>)
      else if domainPrefs ''null'' = Some ''personal''
      then acc\<lparr>urlIntentScore := urlIntentScore acc + 1\<rparr> else acc)"
  using unparsable_url[OF assms]
  by (auto simp add: score_item_def Let_def lookup_pref_def lookup_ignore_def prop_key_def
      add_domain_def classify_step_def AUTO_WORK_IGNORE_COUNT_def old_count_def
      split: option.splits)

text \<open>
  C8 at a string that does not parse. Domain and root domain are null, the path is
  empty, no rule matches, and with maps that have no entry named \<^verbatim>\<open>null\<close> the item
  changes nothing. The two lookups are made with the null domain as the key, which reads
  the property named \<^verbatim>\<open>null\<close>: a preference or a counter stored under that name (the
  host name of \<^verbatim>\<open>http://null/\<close>) is found and scored.
\<close>

theorem unparsable_url_reads_null_key:
  "URL example_platform (url broken_item) = None \<and>
   getDomain example_platform (url broken_item) = None \<and>
   getRootDomain example_platform (url broken_item) = None \<and>
   getPath example_platform (url broken_item) = [] \<and>
   classifyUrl example_platform (url broken_item) = None \<and>
   score_item example_platform Map.empty Map.empty tally0 broken_item = tally0 \<and>
   score_item example_platform [''null'' \<mapsto> ''work''] Map.empty tally0 broken_item
     = tally0\<lparr>workSignalScore := 3\<rparr> \<and>
   score_item example_platform Map.empty [''null'' \<mapsto> 3] tally0 broken_item
     = tally0\<lparr>workSignalScore := 2\<rparr> \<and>
   scoreSession example_platform [broken_item] [''null'' \<mapsto> ''work''] Map.empty
     = Inr \<lparr>score = 0, categories = [], domains = [],
            breakdown = \<lparr>urlIntent = 0, domainVariety = 0, rapid = 0, timing = 1,
                          workSignals = 3\<rparr>\<rparr>"
proof -
  have u: "URL example_platform (url broken_item) = None"
    by (simp add: example_platform_def example_URL_def broken_item_def)
  have t: "timingScore_of example_platform (lastVisitTime broken_item) = 1"
    by (simp add: timingScore_of_def example_platform_def example_ms_def broken_item_def)
  have r: "rapidScore_of [broken_item] = Inr 0" by (simp add: rapidScore_of_def)
  have s: "scoreSession example_platform [broken_item] [''null'' \<mapsto> ''work''] Map.empty
     = Inr \<lparr>score = 0, categories = [], domains = [],
            breakdown = \<lparr>urlIntent = 0, domainVariety = 0, rapid = 0, timing = 1,
                          workSignals = 3\<rparr>\<rparr>"
    unfolding scoreSession_def r
    by (simp add: unparsable_item[OF u] item_at_def t tally0_def Let_def)
  have i: "score_item example_platform Map.empty Map.empty tally0 broken_item = tally0 \<and>
   score_item example_platform [''null'' \<mapsto> ''work''] Map.empty tally0 broken_item
     = tally0\<lparr>workSignalScore := 3\<rparr> \<and>
   score_item example_platform Map.empty [''null'' \<mapsto> 3] tally0 broken_item
     = tally0\<lparr>workSignalScore := 2\<rparr>"
    by (simp add: unparsable_item[OF u] old_count_def tally0_def)
  show ?thesis
    using u unparsable_url[OF u] s i by blast
qed

subsection \<open>Claims about detection\<close>

lemma youtube_segment:
  assumes "0 < t"
  shows "segment (youtube_items t) = [youtube_session t]"
  using assms
  by (simp add: segment_def youtube_items_def youtube_session_def keep_item_def
      List.map_filter_simps SESSION_GAP_MS_def)

lemma youtube_classify:
  assumes "youtube_parser p"
  shows "classifyUrl p ''https://youtube.com/watch?x'' = Some (mk_rule ''/watch'' 2 ''entertainment'' ''Video'')"
    and "classifyUrl p ''https://youtube.com/watch?y'' = Some (mk_rule ''/watch'' 2 ''entertainment'' ''Video'')"
    and "classifyUrl p ''https://youtube.com/shorts'' = Some (mk_rule ''/shorts'' 2 ''entertainment'' ''Video'')"
    and "classifyUrl p ''https://youtube.com/feed'' = Some (mk_rule ''/feed'' 1 ''social'' ''Social'')"
    and "classifyUrl p ''https://youtube.com/explore'' = Some (mk_rule ''/explore'' 1 ''social'' ''Social'')"
  using assms
  by (simp_all add: youtube_parser_def youtube_url_def classifyUrl_def getPath_def
      toLowerCase_def lower_char_def URL_INTENT_RULES_def mk_rule_def)

lemma youtube_domains:
  assumes "youtube_parser p"
  shows "getDomain p ''https://youtube.com/watch?x'' = Some ''youtube.com''"
    and "getDomain p ''https://youtube.com/watch?y'' = Some ''youtube.com''"
    and "getDomain p ''https://youtube.com/shorts'' = Some ''youtube.com''"
    and "getDomain p ''https://youtube.com/feed'' = Some ''youtube.com''"
    and "getDomain p ''https://youtube.com/explore'' = Some ''youtube.com''"
    and "getRootDomain p ''https://youtube.com/watch?x'' = Some ''youtube.com''"
    and "getRootDomain p ''https://youtube.com/watch?y'' = Some ''youtube.com''"
    and "getRootDomain p ''https://youtube.com/shorts'' = Some ''youtube.com''"
    and "getRootDomain p ''https://youtube.com/feed'' = Some ''youtube.com''"
    and "getRootDomain p ''https://youtube.com/explore'' = Some ''youtube.com''"
  using assms
  by (simp_all add: youtube_parser_def youtube_url_def getDomain_def getRootDomain_def Let_def)

lemma youtube_tally:
  assumes "youtube_parser p"
  shows "foldl (score_item p Map.empty Map.empty) tally0 (youtube_session t) =
           \<lparr>urlIntentScore = 8, workSignalScore = 0,
            categoryHits = youtube_categories, domainSet = [''youtube.com'']\<rparr>"
  by (simp add: youtube_session_def score_item_def youtube_domains[OF assms]
      youtube_classify[OF assms] classify_step_def lookup_pref_def lookup_ignore_def
      prop_key_def add_domain_def AUTO_WORK_IGNORE_COUNT_def Let_def tally0_def
      record_hit_def CATEGORY_META_def mk_rule_def youtube_categories_def)

lemma youtube_scored:
  assumes "youtube_parser p"
  shows "scoreSession p (youtube_session t) Map.empty Map.empty =
           Inr \<lparr>score = 82 / 10 + rat_of_int (timingScore_of p t),
                categories = youtube_categories, domains = [''youtube.com''],
                breakdown = \<lparr>urlIntent = 8, domainVariety = 2 / 10, rapid = 0,
                              timing = timingScore_of p t, workSignals = 0\<rparr>\<rparr>"
proof -
  have r: "rapidScore_of (youtube_session t) = Inr 0"
    by (simp add: rapidScore_of_eq) (simp add: youtube_session_def duration_ms_def)
  have f: "item_at (youtube_session t) 0
             = Inr \<lparr>url = ''https://youtube.com/watch?x'', lastVisitTime = t\<rparr>"
    by (simp add: youtube_session_def item_at_def)
  have srt: "sort_key (\<lambda>e. - hit_count e) youtube_categories = youtube_categories"
    by (simp add: youtube_categories_def)
  have nn: "0 \<le> timingScore_of p t" using timingScore_of_range by blast
  show ?thesis
    unfolding scoreSession_def youtube_tally[OF assms] r f
    using nn by (simp add: Let_def srt)
qed

lemma scoreSession_returns:
  assumes "session \<noteq> []"
  shows "\<exists>r. scoreSession p session dp ic = Inr r"
  using scoreSession_rapid[OF assms] by blast

lemma mk_suggestion_returns:
  assumes "session \<noteq> []"
  shows "mk_suggestion session scored =
     Inr \<lparr>sug_id = Session_id (lastVisitTime (hd session)),
          sessionStart = lastVisitTime (hd session), sessionEnd = lastVisitTime (last session),
          totalItems = length session, sug_score = score scored,
          confidence = getConfidence (score scored),
          sug_categories = categories scored, sug_domains = domains scored,
          allUrls = concat (map urls (categories scored)),
          sug_breakdown = breakdown scored\<rparr>"
proof -
  obtain x xs where s: "session = x # xs" using assms by (cases session) auto
  have f: "item_at session 0 = Inr (hd session)" using s item_at_first by simp
  have g: "item_at session (length session - 1) = Inr (last session)"
    using item_at_final[OF assms] .
  show ?thesis unfolding mk_suggestion_def f g by simp
qed

lemma surface_step:
  "surface p dp ic suggestions (session # rest) =
     surface p dp ic
       (suggestions @ (case candidate p dp ic session of None \<Rightarrow> [] | Some s \<Rightarrow> [s])) rest"
proof (cases "length session < 5")
  case True
  then show ?thesis by (simp add: candidate_def)
next
  case False
  then have ne: "session \<noteq> []" by auto
  obtain scored where sc: "scoreSession p session dp ic = Inr scored"
    using scoreSession_returns[OF ne] by blast
  show ?thesis
    using False
    by (simp add: candidate_def sc mk_suggestion_returns[OF ne])
qed

lemma surface_eq:
  "surface p dp ic suggestions sessions =
     Inr (suggestions @ List.map_filter (candidate p dp ic) sessions)"
proof (induction sessions arbitrary: suggestions)
  case Nil
  then show ?case by (simp add: List.map_filter_simps)
next
  case (Cons session rest)
  show ?case
    unfolding surface_step Cons.IH
    by (simp add: List.map_filter_simps split: option.splits)
qed

lemma detect_eq:
  "detectMixedSessions p items dp ic =
     Inr (take 5 (sort_key rank_key (List.map_filter (candidate p dp ic) (segment items))))"
  by (simp add: detectMixedSessions_def surface_eq)

lemma candidate_Some:
  "(candidate p dp ic session = Some s) =
     (length session \<ge> 5 \<and>
      (\<exists>scored. scoreSession p session dp ic = Inr scored \<and> score scored \<ge> 4 \<and>
         categories scored \<noteq> [] \<and> mk_suggestion session scored = Inr s))"
  by (auto simp: candidate_def CONFIDENCE_THRESHOLD_def split: sum.splits)

lemma candidate_qualifies:
  "(candidate p dp ic session \<noteq> None) = qualifies p dp ic session"
proof (cases "length session < 5")
  case True
  then show ?thesis by (simp add: candidate_def qualifies_def)
next
  case False
  then have ne: "session \<noteq> []" by auto
  obtain scored where sc: "scoreSession p session dp ic = Inr scored"
    using scoreSession_returns[OF ne] by blast
  show ?thesis
    using False
    by (auto simp add: candidate_def qualifies_def sc mk_suggestion_returns[OF ne]
        CONFIDENCE_THRESHOLD_def)
qed

lemma length_candidates:
  "length (List.map_filter (candidate p dp ic) sessions)
     = length (filter (qualifies p dp ic) sessions)"
proof (induction sessions)
  case Nil
  then show ?case by (simp add: List.map_filter_simps)
next
  case (Cons session rest)
  show ?case
  proof (cases "candidate p dp ic session")
    case None
    then have "\<not> qualifies p dp ic session" using candidate_qualifies[of p dp ic session] by simp
    then show ?thesis using None Cons by (simp add: List.map_filter_simps)
  next
    case (Some s)
    then have "qualifies p dp ic session" using candidate_qualifies[of p dp ic session] by simp
    then show ?thesis using Some Cons by (simp add: List.map_filter_simps)
  qed
qed

lemma set_map_filter_conv:
  "(y \<in> set (List.map_filter f xs)) = (\<exists>x\<in>set xs. f x = Some y)"
  by (induction xs) (auto simp: List.map_filter_simps split: option.splits)

lemma rank_key_le:
  "(rank_key a \<le> rank_key b) =
     (sug_score a > sug_score b \<or> (sug_score a = sug_score b \<and> sessionStart a \<ge> sessionStart b))"
  by (auto simp: rank_key_def less_eq_prod_def)

lemma sorted_take_drop:
  assumes "sorted (map f xs)"
  shows "sorted (map f (take n xs)) \<and> (\<forall>a\<in>set (take n xs). \<forall>b\<in>set (drop n xs). f a \<le> f b)"
proof -
  have "sorted (map f (take n xs) @ map f (drop n xs))"
    using assms by (simp flip: map_append)
  then show ?thesis by (simp add: sorted_append)
qed


lemma youtube_candidate:
  assumes "youtube_parser p"
  shows "candidate p Map.empty Map.empty (youtube_session t) = Some (youtube_suggestion p t)"
proof -
  have ne: "youtube_session t \<noteq> []" by (simp add: youtube_session_def)
  have l: "length (youtube_session t) = 5" "hd (youtube_session t) = \<lparr>url = ''https://youtube.com/watch?x'', lastVisitTime = t\<rparr>"
    "last (youtube_session t) = \<lparr>url = ''https://youtube.com/explore'', lastVisitTime = t + 120000\<rparr>"
    by (simp_all add: youtube_session_def)
  have nn: "0 \<le> timingScore_of p t" using timingScore_of_range by blast
  have c: "youtube_categories \<noteq> []"
    "concat (map urls youtube_categories) =
       [''https://youtube.com/watch?x'', ''https://youtube.com/watch?y'',
        ''https://youtube.com/shorts'', ''https://youtube.com/feed'',
        ''https://youtube.com/explore'']"
    by (simp_all add: youtube_categories_def)
  show ?thesis
    unfolding candidate_def youtube_scored[OF assms] mk_suggestion_returns[OF ne]
    using nn by (simp add: l c CONFIDENCE_THRESHOLD_def youtube_suggestion_def)
qed

text \<open>
  C2. Five history items on \<^verbatim>\<open>youtube.com\<close> with the paths \<^verbatim>\<open>/watch?x\<close>, \<^verbatim>\<open>/watch?y\<close>,
  \<^verbatim>\<open>/shorts\<close>, \<^verbatim>\<open>/feed\<close>, \<^verbatim>\<open>/explore\<close>, spanning two minutes from a Wednesday at 14:00
  local time, with empty preference and ignore maps: the scorer gives
  \<^verbatim>\<open>urlIntentScore\<close> 8, \<^verbatim>\<open>domainVariety\<close> 0.2, \<^verbatim>\<open>rapidNavigation\<close> 0, \<^verbatim>\<open>timing\<close> 1,
  \<^verbatim>\<open>workSignalScore\<close> 0, the score 9.2 with confidence \<^verbatim>\<open>high\<close>, and the categories
  entertainment with count 3 and social with count 2; detection makes one session of the
  items and returns it as its one suggestion.
\<close>

theorem youtube_example:
  assumes "youtube_platform p t" and "0 < t"
  shows "(\<exists>r. scoreSession p (youtube_session t) Map.empty Map.empty = Inr r \<and>
            urlIntent (breakdown r) = 8 \<and> domainVariety (breakdown r) = 2 / 10 \<and>
            rapid (breakdown r) = 0 \<and> timing (breakdown r) = 1 \<and>
            workSignals (breakdown r) = 0 \<and> score r = 92 / 10 \<and>
            getConfidence (score r) = ''high'' \<and>
            map (\<lambda>c. (hit_category c, hit_count c)) (categories r)
              = [(''entertainment'', 3), (''social'', 2)]) \<and>
         segment (youtube_items t) = [youtube_session t] \<and>
         (\<exists>s. detectMixedSessions p (youtube_items t) Map.empty Map.empty = Inr [s] \<and>
            sessionStart s = t \<and> sessionEnd s = t + 120000 \<and> totalItems s = 5 \<and>
            sug_score s = 92 / 10 \<and> confidence s = ''high'' \<and>
            map (\<lambda>c. (hit_category c, hit_count c)) (sug_categories s)
              = [(''entertainment'', 3), (''social'', 2)])"
proof -
  have ps: "youtube_parser p" using assms(1) by (simp add: youtube_platform_def)
  have tm: "timingScore_of p t = 1"
    using assms(1) by (simp add: timingScore_of_def youtube_platform_def)
  have cats: "map (\<lambda>c. (hit_category c, hit_count c)) youtube_categories
              = [(''entertainment'', 3), (''social'', 2)]"
    by (simp add: youtube_categories_def)
  have a: "\<exists>r. scoreSession p (youtube_session t) Map.empty Map.empty = Inr r \<and>
            urlIntent (breakdown r) = 8 \<and> domainVariety (breakdown r) = 2 / 10 \<and>
            rapid (breakdown r) = 0 \<and> timing (breakdown r) = 1 \<and>
            workSignals (breakdown r) = 0 \<and> score r = 92 / 10 \<and>
            getConfidence (score r) = ''high'' \<and>
            map (\<lambda>c. (hit_category c, hit_count c)) (categories r)
              = [(''entertainment'', 3), (''social'', 2)]"
    unfolding youtube_scored[OF ps] by (simp add: tm cats getConfidence_def)
  have b: "segment (youtube_items t) = [youtube_session t]"
    using youtube_segment[OF assms(2)] .
  have c: "\<exists>s. detectMixedSessions p (youtube_items t) Map.empty Map.empty = Inr [s] \<and>
            sessionStart s = t \<and> sessionEnd s = t + 120000 \<and> totalItems s = 5 \<and>
            sug_score s = 92 / 10 \<and> confidence s = ''high'' \<and>
            map (\<lambda>c. (hit_category c, hit_count c)) (sug_categories s)
              = [(''entertainment'', 3), (''social'', 2)]"
    unfolding detect_eq b
    by (simp add: List.map_filter_simps youtube_candidate[OF ps] youtube_suggestion_def tm cats
        getConfidence_def)
  show ?thesis using a b c by blast
qed

lemma example_parser: "youtube_parser example_platform"
  by (simp add: youtube_parser_def example_platform_def example_URL_def youtube_url_def)

lemma example_timing:
  "timingScore_of example_platform 1704290400000 = 1"
  by (simp add: timingScore_of_def example_platform_def example_ms_def)

theorem youtube_example_witness:
  "youtube_platform example_platform 1704290400000 \<and> (0::rat) < 1704290400000 \<and>
   (\<exists>s. detectMixedSessions example_platform (youtube_items 1704290400000) Map.empty Map.empty
          = Inr [s] \<and> sug_score s = 92 / 10 \<and> confidence s = ''high'')"
proof -
  have h1: "youtube_platform example_platform 1704290400000"
    using example_parser
    by (simp add: youtube_platform_def example_platform_def example_ms_def)
  have h2: "(0::rat) < 1704290400000" by simp
  show ?thesis
    using h1 h2 youtube_example [OF h1 h2] by blast
qed


text \<open>
  C4. For every input, detection returns a list and never raises. Every returned
  suggestion is that of a session of the segmentation with at least 5 items, a score of
  at least 4 and at least one recorded category. The list is sorted by score, largest
  first, and among equal scores by \<^verbatim>\<open>sessionStart\<close>, latest first. It holds the first 5
  of the qualifying sessions in that order, so its length is at most 5, it is 5 when 7
  sessions qualify, and no suggestion left out has a higher score than one returned.
\<close>

theorem detect_ranked:
  "\<exists>R. detectMixedSessions p items domainPrefs ignoreCounts = Inr R \<and>
     R = take 5 (sort_key rank_key
           (List.map_filter (candidate p domainPrefs ignoreCounts) (segment items))) \<and>
     (\<forall>s\<in>set R. \<exists>session\<in>set (segment items). \<exists>scored.
         length session \<ge> 5 \<and> scoreSession p session domainPrefs ignoreCounts = Inr scored \<and>
         score scored \<ge> 4 \<and> categories scored \<noteq> [] \<and>
         mk_suggestion session scored = Inr s \<and> sug_score s = score scored \<and>
         totalItems s = length session \<and> sessionStart s = lastVisitTime (hd session)) \<and>
     sorted_wrt (\<lambda>a b. sug_score a > sug_score b \<or>
                  (sug_score a = sug_score b \<and> sessionStart a \<ge> sessionStart b)) R \<and>
     length R = min 5 (length (filter (qualifies p domainPrefs ignoreCounts) (segment items))) \<and>
     length R \<le> 5 \<and>
     (length (filter (qualifies p domainPrefs ignoreCounts) (segment items)) = 7
        \<longrightarrow> length R = 5) \<and>
     (\<forall>a\<in>set R. \<forall>b\<in>set (drop 5 (sort_key rank_key
           (List.map_filter (candidate p domainPrefs ignoreCounts) (segment items)))).
         sug_score a \<ge> sug_score b)"
proof -
  let ?Q = "List.map_filter (candidate p domainPrefs ignoreCounts) (segment items)"
  let ?S = "sort_key rank_key ?Q"
  let ?R = "take 5 ?S"
  have a: "detectMixedSessions p items domainPrefs ignoreCounts = Inr ?R"
    by (rule detect_eq)
  have b: "\<exists>session\<in>set (segment items). \<exists>scored.
         length session \<ge> 5 \<and> scoreSession p session domainPrefs ignoreCounts = Inr scored \<and>
         score scored \<ge> 4 \<and> categories scored \<noteq> [] \<and>
         mk_suggestion session scored = Inr s \<and> sug_score s = score scored \<and>
         totalItems s = length session \<and> sessionStart s = lastVisitTime (hd session)"
    if s: "s \<in> set ?R" for s
  proof -
    have "s \<in> set ?Q" using in_set_takeD[OF s] by simp
    then obtain session where m: "session \<in> set (segment items)"
      and c: "candidate p domainPrefs ignoreCounts session = Some s"
      unfolding set_map_filter_conv by blast
    obtain scored where l: "length session \<ge> 5"
      and sc: "scoreSession p session domainPrefs ignoreCounts = Inr scored"
      and q: "score scored \<ge> 4" "categories scored \<noteq> []"
      and mk: "mk_suggestion session scored = Inr s"
      using c unfolding candidate_Some by blast
    have ne: "session \<noteq> []" using l by auto
    have "sug_score s = score scored \<and> totalItems s = length session \<and>
          sessionStart s = lastVisitTime (hd session)"
      using mk unfolding mk_suggestion_returns[OF ne] by auto
    then show ?thesis using m l sc q mk by blast
  qed
  have srt: "sorted (map rank_key ?S)" by simp
  have td: "sorted (map rank_key ?R) \<and>
            (\<forall>a\<in>set ?R. \<forall>b\<in>set (drop 5 ?S). rank_key a \<le> rank_key b)"
    using sorted_take_drop[OF srt] .
  have c: "sorted_wrt (\<lambda>a b. sug_score a > sug_score b \<or>
                  (sug_score a = sug_score b \<and> sessionStart a \<ge> sessionStart b)) ?R"
    using td by (simp add: sorted_map rank_key_le)
  have d: "length ?R = min 5 (length (filter (qualifies p domainPrefs ignoreCounts) (segment items)))"
    by (simp add: length_candidates min.commute)
  have e: "\<forall>a\<in>set ?R. \<forall>b\<in>set (drop 5 ?S). sug_score a \<ge> sug_score b"
  proof (intro ballI)
    fix a b assume "a \<in> set ?R" "b \<in> set (drop 5 ?S)"
    then have "rank_key a \<le> rank_key b" using td by blast
    then show "sug_score a \<ge> sug_score b" unfolding rank_key_le by auto
  qed
  show ?thesis using a b c d e by (intro exI[of _ ?R]) auto
qed

lemma week_segment: "segment week_items = map youtube_session week_starts"
  by (simp add: week_items_def week_starts_def segment_def youtube_items_def youtube_session_def
      keep_item_def List.map_filter_simps SESSION_GAP_MS_def)

lemma week_candidates:
  "List.map_filter (candidate example_platform Map.empty Map.empty) (segment week_items)
     = map (youtube_suggestion example_platform) week_starts"
  unfolding week_segment
  by (simp add: week_starts_def List.map_filter_simps youtube_candidate[OF example_parser])

lemma week_timing:
  "map (timingScore_of example_platform) week_starts = [1, 1, 1, 0, 0, 1, 1]"
  by (simp add: week_starts_def timingScore_of_def example_platform_def example_ms_def)

lemma insort_key_map:
  "insort_key f (g x) (map g ys) = map g (insort_key (\<lambda>y. f (g y)) x ys)"
  by (induction ys) auto

lemma sort_key_map:
  "sort_key f (map g xs) = map g (sort_key (\<lambda>y. f (g y)) xs)"
  by (induction xs) (auto simp: insort_key_map)

lemma week_keys:
  "map (\<lambda>t. rank_key (youtube_suggestion example_platform t)) week_starts
     = map (\<lambda>(t, k). (- (82 / 10 + rat_of_int k), - t)) (zip week_starts [1, 1, 1, 0, 0, 1, 1])"
  unfolding week_timing[symmetric]
  by (simp add: week_starts_def rank_key_def youtube_suggestion_def)

lemma week_order:
  "sort_key (\<lambda>t. rank_key (youtube_suggestion example_platform t)) week_starts
     = [1704808800000, 1704722400000, 1704463200000, 1704376800000, 1704290400000,
        1704636000000, 1704549600000]"
  using week_keys by (simp add: week_starts_def)

lemma week_ranking:
  "map sessionStart (take 5 (sort_key rank_key (map (youtube_suggestion example_platform) week_starts)))
     = [1704808800000, 1704722400000, 1704463200000, 1704376800000, 1704290400000]"
  unfolding sort_key_map week_order
  by (simp add: youtube_suggestion_def)

theorem detect_ranked_witness:
  "length (filter (qualifies example_platform Map.empty Map.empty) (segment week_items)) = 7 \<and>
   (\<exists>R. detectMixedSessions example_platform week_items Map.empty Map.empty = Inr R \<and>
        length R = 5 \<and>
        map sessionStart R
          = [1704808800000, 1704722400000, 1704463200000, 1704376800000, 1704290400000])"
proof -
  have q: "length (filter (qualifies example_platform Map.empty Map.empty) (segment week_items)) = 7"
    unfolding length_candidates[symmetric] week_candidates by (simp add: week_starts_def)
  obtain R where d: "detectMixedSessions example_platform week_items Map.empty Map.empty = Inr R"
    and r: "R = take 5 (sort_key rank_key
           (List.map_filter (candidate example_platform Map.empty Map.empty) (segment week_items)))"
    and l: "length R = 5"
    using q detect_ranked [of example_platform week_items Map.empty Map.empty] by blast
  have "map sessionStart R
          = [1704808800000, 1704722400000, 1704463200000, 1704376800000, 1704290400000]"
    unfolding r week_candidates by (rule week_ranking)
  then show ?thesis using q d l by simp
qed

end
